theory Spec2Isabelle
  imports Main
begin

section \<open>Data model\<close>

text \<open>
  The values the lint engine produces (polymer-analyzer's \<open>SourcePosition\<close>,
  \<open>SourceRange\<close>, \<open>Replacement\<close>, \<open>Edit\<close>, \<open>Action\<close> and \<open>Warning\<close>).
  Field names that are Isabelle keywords or HOL constants carry a prefix
  (\<open>range_file\<close>, \<open>range_start\<close>, \<open>range_end\<close>, \<open>repl_range\<close>, \<open>w_fix\<close>,
  \<open>w_code\<close>). An optional field is an \<open>option\<close>.
\<close>

record sourcePosition =
  line :: nat
  column :: nat

record sourceRange =
  range_file :: string
  range_start :: sourcePosition
  range_end :: sourcePosition

record replacement =
  repl_range :: sourceRange
  replacementText :: string

type_synonym edit = "replacement list"

record action =
  kind :: string
  description :: string
  edit :: edit

record warning =
  w_code :: string
  sourceRange :: sourceRange
  w_fix :: "edit option"
  actions :: "action list option"

text \<open>An exception thrown by an external collaborator, with its message.\<close>

datatype error = Exception string

text \<open>
  \<open>Command.create(title, command, ...args)\<close> of the language-server protocol; the
  workspace edit it carries is of the abstract type \<open>'e\<close>.
\<close>

record 'e command =
  title :: string
  command :: string
  arguments :: "'e list"

text \<open>\<open>TextEdit.replace(range, newText)\<close>, over the protocol's range type \<open>'l\<close>.\<close>

record 'l textEdit =
  te_range :: 'l
  newText :: string

text \<open>\<open>CodeActionParams\<close>: the document's URI, the requested range, the context's diagnostics.\<close>

record ('d, 'l) codeActionParams =
  textDocument :: string
  req_range :: 'l
  context_diagnostics :: "'d list"

subsection \<open>Collaborators that are not part of this file\<close>

text \<open>
  \<open>AnalyzerLSPConverter\<close> (converter.ts) is used through seven methods. Their bodies are
  not in diagnostics.ts, so they are parameters: \<open>'d\<close> is the protocol's Diagnostic,
  \<open>'l\<close> its Range, \<open>'e\<close> its WorkspaceEdit.
\<close>

record ('d, 'l, 'e) converter =
  getWorkspacePathToFile :: "string \<Rightarrow> string"
  getUriForLocalPath :: "string \<Rightarrow> string"
  convertWarningToDiagnostic :: "warning \<Rightarrow> 'd"
  convertPRangeToL :: "sourceRange \<Rightarrow> 'l"
  convertLRangeToP :: "'l \<Rightarrow> string \<Rightarrow> sourceRange"
  editToWorkspaceEdit :: "edit \<Rightarrow> 'e"
  editsToWorkspaceEdit :: "edit list \<Rightarrow> 'e"

text \<open>\<open>settings.projectConfig.lint.rules\<close>, each level optional, and the analysis mode.\<close>

record lintOptions =
  rules :: "string list option"

record projectConfig =
  lint :: "lintOptions option"

record settings =
  analyzeWholePackage :: bool
  projectConfig :: projectConfig

text \<open>
  Everything the generator reads from outside at the moment an operation runs: the
  converter, the current settings, \<open>documents.keys()\<close>, the rule registry, the lint
  engine (\<open>new Linter(rules, analyzer)\<close> answers \<open>lint(files)\<close> and \<open>lintPackage()\<close>; its
  answer is a function of the rules it was built with), \<open>applyEdits\<close> (with the parse
  loader it is given), the constant \<open>applyEditCommandName\<close> and \<open>Handler.handleErrors\<close>
  (util.ts). A call that throws answers \<open>Inl\<close>.
\<close>

record ('d, 'l, 'e, 'r) env =
  converter :: "('d, 'l, 'e) converter"
  settings :: settings
  documents_keys :: "string list"
  registry_getRules :: "string list \<Rightarrow> error + 'r list"
  linter_lint :: "'r list \<Rightarrow> string list \<Rightarrow> error + warning list"
  linter_lintPackage :: "'r list \<Rightarrow> error + warning list"
  applyEdits :: "edit list \<Rightarrow> error + edit list"
  applyEditCommandName :: string
  handleErrors :: "error + 'e command list \<Rightarrow> 'e command list \<Rightarrow> error + 'e command list"

subsection \<open>The generator's state\<close>

text \<open>A call into the lint engine or the fix applier, as recorded in the call log.\<close>

datatype 'r call =
  Lint "'r list" "string list"
| LintPackage "'r list"
| ApplyEdits "edit list"

text \<open>
  \<open>linter\<close> is the rule set of \<open>this.linter\<close>; \<open>urisReportedWarningsFor\<close> is the
  Reported-State Set, a JavaScript \<open>Set\<close> kept as the list of its elements in insertion
  order; \<open>sent\<close> is what \<open>connection.sendDiagnostics\<close> has been given so far, oldest
  first, each entry a URI with its diagnostics; \<open>calls\<close> is the log of calls made to
  the lint engine and to \<open>applyEdits\<close>.
\<close>

record ('d, 'r) state =
  linter :: "'r list"
  urisReportedWarningsFor :: "string list"
  sent :: "(string \<times> 'd list) list"
  calls :: "'r call list"

section \<open>JavaScript Set and Map\<close>

text \<open>
  A \<open>Set\<close> iterates in insertion order and holds no element twice; a \<open>Map\<close> iterates
  its entries in the order their keys were first set, and setting a key that is
  present keeps its place.
\<close>

definition set_add :: "'a \<Rightarrow> 'a list \<Rightarrow> 'a list" where
  "set_add x xs = (if x \<in> set xs then xs else xs @ [x])"

definition set_delete :: "'a \<Rightarrow> 'a list \<Rightarrow> 'a list" where
  "set_delete x xs = removeAll x xs"

definition new_Set :: "'a list \<Rightarrow> 'a list" where
  "new_Set xs = foldl (\<lambda>s x. set_add x s) [] xs"

fun map_set :: "'k \<Rightarrow> 'v \<Rightarrow> ('k \<times> 'v) list \<Rightarrow> ('k \<times> 'v) list" where
  "map_set k v [] = [(k, v)]"
| "map_set k v ((k', v') # m) = (if k' = k then (k, v) # m else (k', v') # map_set k v m)"

definition map_get :: "('k \<times> 'v) list \<Rightarrow> 'k \<Rightarrow> 'v option" where
  "map_get m k = map_of m k"

definition map_keys :: "('k \<times> 'v) list \<Rightarrow> 'k list" where
  "map_keys m = map fst m"

section \<open>Publishing diagnostics\<close>

definition sendDiagnostics :: "string \<times> 'd list \<Rightarrow> ('d, 'r) state \<Rightarrow> ('d, 'r) state" where
  "sendDiagnostics p s = s\<lparr>sent := sent s @ [p]\<rparr>"

text \<open>The URI a warning is reported under.\<close>

definition warningUri :: "('d, 'l, 'e) converter \<Rightarrow> warning \<Rightarrow> string" where
  "warningUri conv w = getUriForLocalPath conv (range_file (sourceRange w))"

text \<open>
  The first loop of \<open>reportPackageWarnings\<close>, over the warnings. Its variables are
  \<open>reportedLastTime\<close>, the field \<open>this.urisReportedWarningsFor\<close> and \<open>diagnosticsByUri\<close>.
  The array stored in the map is the one pushed to, so the push changes the entry.
\<close>

fun reportPackageWarnings_loop ::
  "('d, 'l, 'e) converter \<Rightarrow> warning list \<Rightarrow>
   string list \<times> string list \<times> (string \<times> 'd list) list \<Rightarrow>
   string list \<times> string list \<times> (string \<times> 'd list) list" where
  "reportPackageWarnings_loop conv [] (reportedLastTime, uris, diagnosticsByUri) =
     (reportedLastTime, uris, diagnosticsByUri)"
| "reportPackageWarnings_loop conv (w # ws) (reportedLastTime, uris, diagnosticsByUri) =
     (let uri = warningUri conv w;
          reportedLastTime' = set_delete uri reportedLastTime;
          uris' = set_add uri uris;
          diagnostics = (case map_get diagnosticsByUri uri of None \<Rightarrow> [] | Some ds \<Rightarrow> ds)
      in reportPackageWarnings_loop conv ws
           (reportedLastTime', uris',
            map_set uri (diagnostics @ [convertWarningToDiagnostic conv w]) diagnosticsByUri))"

definition reportPackageWarnings ::
  "('d, 'l, 'e, 'r) env \<Rightarrow> warning list \<Rightarrow> ('d, 'r) state \<Rightarrow> ('d, 'r) state" where
  "reportPackageWarnings env warnings s =
     (let reportedLastTime = new_Set (urisReportedWarningsFor s);
          s1 = s\<lparr>urisReportedWarningsFor := new_Set []\<rparr>;
          (reportedLastTime', uris', diagnosticsByUri) =
             reportPackageWarnings_loop (converter env) warnings
               (reportedLastTime, urisReportedWarningsFor s1, []);
          s2 = s1\<lparr>urisReportedWarningsFor := uris'\<rparr>;
          s3 = foldl (\<lambda>t p. sendDiagnostics p t) s2 diagnosticsByUri;
          s4 = foldl (\<lambda>t uriWithNoWarnings. sendDiagnostics (uriWithNoWarnings, []) t) s3
                 reportedLastTime'
      in s4\<lparr>urisReportedWarningsFor := new_Set (map_keys diagnosticsByUri)\<rparr>)"

text \<open>The grouping loop of the open-documents branch of \<open>reportWarnings\<close>.\<close>

fun reportWarnings_loop ::
  "('d, 'l, 'e) converter \<Rightarrow> warning list \<Rightarrow> (string \<times> 'd list) list \<Rightarrow>
   (string \<times> 'd list) list" where
  "reportWarnings_loop conv [] diagnosticsByUri = diagnosticsByUri"
| "reportWarnings_loop conv (w # ws) diagnosticsByUri =
     (let diagnostic = convertWarningToDiagnostic conv w;
          diagnostics = (case map_get diagnosticsByUri (warningUri conv w) of
                           None \<Rightarrow> [] | Some ds \<Rightarrow> ds)
      in reportWarnings_loop conv ws
           (map_set (warningUri conv w) (diagnostics @ [diagnostic]) diagnosticsByUri))"

definition reportOpenWarnings ::
  "('d, 'l, 'e, 'r) env \<Rightarrow> warning list \<Rightarrow> ('d, 'r) state \<Rightarrow> ('d, 'r) state" where
  "reportOpenWarnings env warnings s =
     foldl (\<lambda>t p. sendDiagnostics p t) s (reportWarnings_loop (converter env) warnings [])"

text \<open>
  \<open>reportWarnings\<close> is asynchronous with one \<open>await\<close> in each branch, on the lint
  engine. An engine failure rejects the returned promise (\<open>Inl\<close>) before anything else
  is done.
\<close>

definition reportWarnings ::
  "('d, 'l, 'e, 'r) env \<Rightarrow> ('d, 'r) state \<Rightarrow> (error + unit) \<times> ('d, 'r) state" where
  "reportWarnings env s =
     (if analyzeWholePackage (settings env) then
        (let s1 = s\<lparr>calls := calls s @ [LintPackage (linter s)]\<rparr>
         in case linter_lintPackage env (linter s) of
              Inl e \<Rightarrow> (Inl e, s1)
            | Inr warnings \<Rightarrow> (Inr (), reportPackageWarnings env warnings s1))
      else
        (let paths = map (getWorkspacePathToFile (converter env)) (documents_keys env);
             s1 = s\<lparr>calls := calls s @ [Lint (linter s) paths]\<rparr>
         in case linter_lint env (linter s) paths of
              Inl e \<Rightarrow> (Inl e, s1)
            | Inr warnings \<Rightarrow> (Inr (), reportOpenWarnings env warnings s1)))"

text \<open>The workspace paths of the open documents, the files the second branch lints.\<close>

definition openPaths :: "('d, 'l, 'e, 'r) env \<Rightarrow> string list" where
  "openPaths env = map (getWorkspacePathToFile (converter env)) (documents_keys env)"

text \<open>
  The same function cut at its \<open>await\<close>. \<open>reportWarnings_begin\<close> is what runs when
  \<open>reportWarnings()\<close> is called: it picks the branch and calls the engine.
  \<open>reportWarnings_resume\<close> is the rest, run in one piece when the engine has answered,
  on the state of that moment. A suspended cycle remembers its branch and its call.
\<close>

datatype 'r pending =
  PendingPackage "'r list"
| PendingOpen "'r list" "string list"

definition reportWarnings_begin ::
  "('d, 'l, 'e, 'r) env \<Rightarrow> ('d, 'r) state \<Rightarrow> 'r pending \<times> ('d, 'r) state" where
  "reportWarnings_begin env s =
     (if analyzeWholePackage (settings env) then
        (PendingPackage (linter s), s\<lparr>calls := calls s @ [LintPackage (linter s)]\<rparr>)
      else
        (let paths = map (getWorkspacePathToFile (converter env)) (documents_keys env)
         in (PendingOpen (linter s) paths, s\<lparr>calls := calls s @ [Lint (linter s) paths]\<rparr>)))"

definition reportWarnings_resume ::
  "('d, 'l, 'e, 'r) env \<Rightarrow> 'r pending \<Rightarrow> error + warning list \<Rightarrow> ('d, 'r) state \<Rightarrow>
   (error + unit) \<times> ('d, 'r) state" where
  "reportWarnings_resume env p answer s =
     (case answer of
        Inl e \<Rightarrow> (Inl e, s)
      | Inr warnings \<Rightarrow>
          (case p of
             PendingPackage rs \<Rightarrow> (Inr (), reportPackageWarnings env warnings s)
           | PendingOpen rs paths \<Rightarrow> (Inr (), reportOpenWarnings env warnings s)))"

definition engine_answer :: "('d, 'l, 'e, 'r) env \<Rightarrow> 'r pending \<Rightarrow> error + warning list" where
  "engine_answer env p =
     (case p of
        PendingPackage rs \<Rightarrow> linter_lintPackage env rs
      | PendingOpen rs paths \<Rightarrow> linter_lint env rs paths)"

text \<open>
  Cooperative scheduling of reporting cycles: a trigger starts a cycle, which runs to
  its \<open>await\<close> and is then in flight; when the engine settles the \<open>i\<close>-th cycle in
  flight with an answer, that cycle's continuation runs to its end. Nothing else runs
  in between, since the continuation has no \<open>await\<close>.
\<close>

record ('d, 'r) system =
  generator :: "('d, 'r) state"
  inflight :: "'r pending list"

datatype event =
  Trigger
| Settle nat "error + warning list"

fun system_step ::
  "('d, 'l, 'e, 'r) env \<Rightarrow> ('d, 'r) system \<Rightarrow> event \<Rightarrow> ('d, 'r) system" where
  "system_step env sys Trigger =
     (let (p, s1) = reportWarnings_begin env (generator sys)
      in \<lparr>generator = s1, inflight = inflight sys @ [p]\<rparr>)"
| "system_step env sys (Settle i answer) =
     (if i < length (inflight sys) then
        \<lparr>generator = snd (reportWarnings_resume env (inflight sys ! i) answer (generator sys)),
         inflight = take i (inflight sys) @ drop (Suc i) (inflight sys)\<rparr>
      else sys)"

definition run_schedule ::
  "('d, 'l, 'e, 'r) env \<Rightarrow> event list \<Rightarrow> ('d, 'r) system \<Rightarrow> ('d, 'r) system" where
  "run_schedule env evs sys = foldl (system_step env) sys evs"

section \<open>The listeners the constructor registers\<close>

text \<open>
  A listener that calls \<open>reportWarnings()\<close> does not wait for it. It is given here
  with the cycle run to its end, the engine answering at once; how cycles interleave when
  it does not is the subject of the schedule above.
\<close>

text \<open>\<open>connection.onDidCloseTextDocument\<close>.\<close>

definition onDidCloseTextDocument ::
  "('d, 'l, 'e, 'r) env \<Rightarrow> string \<Rightarrow> ('d, 'r) state \<Rightarrow> ('d, 'r) state" where
  "onDidCloseTextDocument env uri s =
     (if \<not> analyzeWholePackage (settings env) then sendDiagnostics (uri, []) s else s)"

text \<open>
  \<open>updateLinter\<close>, the listener of \<open>settings.projectConfigChangeStream\<close>. The
  \<open>try\<close>/\<open>catch\<close> around \<open>registry.getRules\<close> leaves \<open>rules\<close> at its initial value,
  the empty set. The promise of \<open>reportWarnings()\<close> is dropped, so the method itself
  returns normally.
\<close>

definition updateLinter ::
  "('d, 'l, 'e, 'r) env \<Rightarrow> ('d, 'r) state \<Rightarrow> (error + unit) \<times> ('d, 'r) state" where
  "updateLinter env s =
     (let rules0 = [];
          rules1 =
            (case lint (projectConfig (settings env)) of
               None \<Rightarrow> rules0
             | Some opts \<Rightarrow>
                 (case rules opts of
                    None \<Rightarrow> rules0
                  | Some names \<Rightarrow>
                      (case registry_getRules env names of
                         Inl e \<Rightarrow> rules0
                       | Inr rs \<Rightarrow> rs)));
          s1 = s\<lparr>linter := rules1\<rparr>
      in (Inr (), snd (reportWarnings env s1)))"

text \<open>The listener of \<open>fileSynchronizer.fileChanges\<close>.\<close>

definition onFileChanges :: "('d, 'l, 'e, 'r) env \<Rightarrow> ('d, 'r) state \<Rightarrow> ('d, 'r) state" where
  "onFileChanges env s = snd (reportWarnings env s)"

text \<open>
  The listener of \<open>settings.changeStream\<close>, given the event's \<open>newer\<close> and \<open>older\<close>
  settings. \<open>reportWarnings\<close> reads the mode from \<open>this.settings\<close>, that is from
  \<open>settings env\<close>.
\<close>

definition onSettingsChange ::
  "('d, 'l, 'e, 'r) env \<Rightarrow> settings \<Rightarrow> settings \<Rightarrow> ('d, 'r) state \<Rightarrow> ('d, 'r) state" where
  "onSettingsChange env newer older s =
     (if analyzeWholePackage newer \<noteq> analyzeWholePackage older then
        (let s1 =
           (if analyzeWholePackage newer then
              s\<lparr>urisReportedWarningsFor := new_Set (documents_keys env)\<rparr>
            else
              foldl (\<lambda>t uri. sendDiagnostics (uri, []) t) s (urisReportedWarningsFor s))
         in snd (reportWarnings env s1))
      else s)"

section \<open>Fixes\<close>

fun getAllFixes_loop :: "warning list \<Rightarrow> edit list \<Rightarrow> edit list" where
  "getAllFixes_loop [] fixes = fixes"
| "getAllFixes_loop (w # ws) fixes =
     (case w_fix w of
        Some f \<Rightarrow> getAllFixes_loop ws (fixes @ [f])
      | None \<Rightarrow> getAllFixes_loop ws fixes)"

definition getAllFixes ::
  "('d, 'l, 'e, 'r) env \<Rightarrow> ('d, 'r) state \<Rightarrow> (error + 'e) \<times> ('d, 'r) state" where
  "getAllFixes env s =
     (let s1 = s\<lparr>calls := calls s @ [LintPackage (linter s)]\<rparr>
      in case linter_lintPackage env (linter s) of
           Inl e \<Rightarrow> (Inl e, s1)
         | Inr warnings \<Rightarrow>
             (let fixes = getAllFixes_loop warnings [];
                  s2 = s1\<lparr>calls := calls s1 @ [ApplyEdits fixes]\<rparr>
              in case applyEdits env fixes of
                   Inl e \<Rightarrow> (Inl e, s2)
                 | Inr appliedEdits \<Rightarrow>
                     (Inr (editsToWorkspaceEdit (converter env) appliedEdits), s2)))"

text \<open>
  The collecting loop of \<open>getFixesForFile\<close>: a warning without a fix is skipped, and so
  is one whose fix has some replacement in another file than \<open>path\<close>.
\<close>

fun getFixesForFile_loop :: "string \<Rightarrow> warning list \<Rightarrow> edit list \<Rightarrow> edit list" where
  "getFixesForFile_loop path [] edits = edits"
| "getFixesForFile_loop path (w # ws) edits =
     (case w_fix w of
        None \<Rightarrow> getFixesForFile_loop path ws edits
      | Some f \<Rightarrow>
          (if list_ex (\<lambda>repl. range_file (repl_range repl) \<noteq> path) f
           then getFixesForFile_loop path ws edits
           else getFixesForFile_loop path ws (edits @ [f])))"

definition toTextEdit :: "('d, 'l, 'e) converter \<Rightarrow> replacement \<Rightarrow> 'l textEdit" where
  "toTextEdit conv replacement =
     \<lparr>te_range = convertPRangeToL conv (repl_range replacement),
      newText = replacementText replacement\<rparr>"

definition getFixesForFile ::
  "('d, 'l, 'e, 'r) env \<Rightarrow> string \<Rightarrow> ('d, 'r) state \<Rightarrow>
   (error + 'l textEdit list) \<times> ('d, 'r) state" where
  "getFixesForFile env uri s =
     (let path = getWorkspacePathToFile (converter env) uri;
          s1 = s\<lparr>calls := calls s @ [Lint (linter s) [path]]\<rparr>
      in case linter_lint env (linter s) [path] of
           Inl e \<Rightarrow> (Inl e, s1)
         | Inr warnings \<Rightarrow>
             (let edits = getFixesForFile_loop path warnings [];
                  s2 = s1\<lparr>calls := calls s1 @ [ApplyEdits edits]\<rparr>
              in case applyEdits env edits of
                   Inl e \<Rightarrow> (Inl e, s2)
                 | Inr appliedEdits \<Rightarrow>
                     (Inr (concat (map (map (toTextEdit (converter env))) appliedEdits)), s2)))"

section \<open>Code actions\<close>

text \<open>
  Modelled from the spec: the order of source positions, which \<open>isPositionInsideRange\<close>
  of polymer-analyzer rests on and which is not in diagnostics.ts. Positions are
  zero-based line and column pairs; one is compared with another by line first and by
  column within a line.
\<close>

definition position_le :: "sourcePosition \<Rightarrow> sourcePosition \<Rightarrow> bool" where
  "position_le p q = (line p < line q \<or> (line p = line q \<and> column p \<le> column q))"

definition position_lt :: "sourcePosition \<Rightarrow> sourcePosition \<Rightarrow> bool" where
  "position_lt p q = (line p < line q \<or> (line p = line q \<and> column p < column q))"

text \<open>
  Modelled from the spec: \<open>isPositionInsideRange\<close> of polymer-analyzer, which
  diagnostics.ts imports and whose body is not in this file. The spec's words are that
  the position lies within the range, inclusive. The spec describes the inclusive
  comparison only, which is the one \<open>isRangeInside\<close> asks for; without the edges the
  comparison is taken strict.
\<close>

definition isPositionInsideRange :: "sourcePosition \<Rightarrow> sourceRange \<Rightarrow> bool \<Rightarrow> bool" where
  "isPositionInsideRange position r includeEdges =
     (if includeEdges
      then position_le (range_start r) position \<and> position_le position (range_end r)
      else position_lt (range_start r) position \<and> position_lt position (range_end r))"

definition isRangeInside :: "sourceRange \<Rightarrow> sourceRange \<Rightarrow> bool" where
  "isRangeInside inner outer =
     (isPositionInsideRange (range_start inner) outer True \<and>
      isPositionInsideRange (range_end inner) outer True)"

definition createApplyEditCommand ::
  "('d, 'l, 'e, 'r) env \<Rightarrow> string \<Rightarrow> edit \<Rightarrow> 'e command" where
  "createApplyEditCommand env t e =
     \<lparr>title = t, command = applyEditCommandName env,
      arguments = [editToWorkspaceEdit (converter env) e]\<rparr>"

text \<open>The inner loop of \<open>getCodeActions\<close>, over the actions of one warning.\<close>

fun actionCommands_loop ::
  "('d, 'l, 'e, 'r) env \<Rightarrow> action list \<Rightarrow> 'e command list \<Rightarrow> 'e command list" where
  "actionCommands_loop env [] commands = commands"
| "actionCommands_loop env (a # as) commands =
     (if kind a \<noteq> ''edit'' then actionCommands_loop env as commands
      else actionCommands_loop env as
             (commands @
              [createApplyEditCommand env (takeWhile (\<lambda>c. c \<noteq> CHR 0x0A) (description a))
                 (edit a)]))"

text \<open>
  One turn of the outer loop of \<open>getCodeActions\<close>: the commands after the warning has
  been looked at, from the commands before. The first test is the \<open>continue\<close>.
\<close>

definition warningCommands ::
  "('d, 'l, 'e, 'r) env \<Rightarrow> sourceRange \<Rightarrow> warning \<Rightarrow> 'e command list \<Rightarrow> 'e command list" where
  "warningCommands env requestedRange w commands =
     (if (w_fix w = None \<and> (case actions w of None \<Rightarrow> True | Some as \<Rightarrow> length as = 0)) \<or>
         \<not> isRangeInside (sourceRange w) requestedRange
      then commands
      else
        (let commands1 =
               (case w_fix w of
                  Some f \<Rightarrow>
                    commands @
                    [createApplyEditCommand env
                       (''Quick fix the '' @ [CHR 0x27] @ w_code w @ [CHR 0x27] @ '' warning'') f]
                | None \<Rightarrow> commands)
         in case actions w of
              Some as \<Rightarrow> actionCommands_loop env as commands1
            | None \<Rightarrow> commands1))"

definition getCodeActions ::
  "('d, 'l, 'e, 'r) env \<Rightarrow> ('d, 'l) codeActionParams \<Rightarrow> ('d, 'r) state \<Rightarrow>
   (error + 'e command list) \<times> ('d, 'r) state" where
  "getCodeActions env req s =
     (if length (context_diagnostics req) = 0 then (Inr [], s)
      else
        (let path = getWorkspacePathToFile (converter env) (textDocument req);
             s1 = s\<lparr>calls := calls s @ [Lint (linter s) [path]]\<rparr>
         in case linter_lint env (linter s) [path] of
              Inl e \<Rightarrow> (Inl e, s1)
            | Inr warnings \<Rightarrow>
                (let requestedRange =
                       convertLRangeToP (converter env) (req_range req) (textDocument req)
                 in (Inr (foldl (\<lambda>commands w. warningCommands env requestedRange w commands)
                            [] warnings), s1))))"

text \<open>The handler given to \<open>connection.onCodeAction\<close>.\<close>

definition onCodeAction ::
  "('d, 'l, 'e, 'r) env \<Rightarrow> ('d, 'l) codeActionParams \<Rightarrow> ('d, 'r) state \<Rightarrow>
   (error + 'e command list) \<times> ('d, 'r) state" where
  "onCodeAction env req s =
     (let (result, s1) = getCodeActions env req s in (handleErrors env result [], s1))"

text \<open>
  The constructor: the field initialiser gives the empty Reported-State Set, nothing has
  been sent or asked of the engine, the listeners are registered, and the last statement
  is \<open>this.updateLinter()\<close>, which gives \<open>this.linter\<close> its first value (until then
  the field is not read, and is given here as the linter without rules).
\<close>

definition initial_state :: "('d, 'r) state" where
  "initial_state = \<lparr>linter = [], urisReportedWarningsFor = new_Set [], sent = [], calls = []\<rparr>"

definition constructed :: "('d, 'l, 'e, 'r) env \<Rightarrow> ('d, 'r) state" where
  "constructed env = snd (updateLinter env initial_state)"

text \<open>Every stimulus the generator reacts to, and the state it leaves.\<close>

datatype ('d, 'l) stimulus =
  DidCloseTextDocument string
| ProjectConfigChange
| FileChanges
| SettingsChange settings settings
| CodeAction "('d, 'l) codeActionParams"
| AllFixes
| FixesForFile string

fun react ::
  "('d, 'l, 'e, 'r) env \<Rightarrow> ('d, 'l) stimulus \<Rightarrow> ('d, 'r) state \<Rightarrow> ('d, 'r) state" where
  "react env (DidCloseTextDocument uri) s = onDidCloseTextDocument env uri s"
| "react env ProjectConfigChange s = snd (updateLinter env s)"
| "react env FileChanges s = onFileChanges env s"
| "react env (SettingsChange newer older) s = onSettingsChange env newer older s"
| "react env (CodeAction req) s = snd (onCodeAction env req s)"
| "react env AllFixes s = snd (getAllFixes env s)"
| "react env (FixesForFile uri) s = snd (getFixesForFile env uri s)"

text \<open>The stimuli whose listener calls \<open>reportWarnings\<close>.\<close>

fun runsCycle :: "('d, 'l) stimulus \<Rightarrow> bool" where
  "runsCycle ProjectConfigChange = True"
| "runsCycle FileChanges = True"
| "runsCycle (SettingsChange newer older) =
     (analyzeWholePackage newer \<noteq> analyzeWholePackage older)"
| "runsCycle _ = False"

section \<open>Observations on the protocol log\<close>

text \<open>
  A clear is a publish with an empty diagnostics array. \<open>clears u log\<close> counts the
  clears for the URI \<open>u\<close> in a log; \<open>clearedUris\<close> is the old Reported-State Set
  without the URIs of the warnings of this pass, in the old set's order.
\<close>

definition clears :: "string \<Rightarrow> (string \<times> 'd list) list \<Rightarrow> nat" where
  "clears u log = length (filter (\<lambda>p. fst p = u \<and> snd p = []) log)"

definition clearedUris :: "('d, 'l, 'e) converter \<Rightarrow> warning list \<Rightarrow> string list \<Rightarrow> string list" where
  "clearedUris conv ws reported =
     filter (\<lambda>x. x \<notin> warningUri conv ` set ws) (new_Set reported)"

text \<open>The URIs a whole-package cycle commits as the Reported-State Set.\<close>

definition packageUris :: "('d, 'l, 'e) converter \<Rightarrow> warning list \<Rightarrow> string list" where
  "packageUris conv ws = new_Set (map (warningUri conv) ws)"

section \<open>A concrete environment\<close>

text \<open>
  An instance of the collaborators, to run the operations on: URIs are paths behind
  \<open>file://\<close>, a diagnostic is the warning's code, protocol ranges and workspace edits
  are the analyzer's own, the registry knows every name, the engine gives the same
  answer to every call, and every edit applies.
\<close>

definition example_converter :: "(string, sourceRange, edit) converter" where
  "example_converter =
     \<lparr>getWorkspacePathToFile = drop 7,
      getUriForLocalPath = (\<lambda>path. ''file://'' @ path),
      convertWarningToDiagnostic = w_code,
      convertPRangeToL = (\<lambda>r. r),
      convertLRangeToP = (\<lambda>l uri. l),
      editToWorkspaceEdit = (\<lambda>e. e),
      editsToWorkspaceEdit = concat\<rparr>"

definition example_env ::
  "bool \<Rightarrow> string list \<Rightarrow> error + warning list \<Rightarrow> (string, sourceRange, edit, string) env" where
  "example_env whole docs answer =
     \<lparr>converter = example_converter,
      settings = \<lparr>analyzeWholePackage = whole, projectConfig = \<lparr>lint = None\<rparr>\<rparr>,
      documents_keys = docs,
      registry_getRules = (\<lambda>names. Inr names),
      linter_lint = (\<lambda>rs paths. answer),
      linter_lintPackage = (\<lambda>rs. answer),
      applyEdits = (\<lambda>edits. Inr edits),
      applyEditCommandName = ''polymer-ide/applyEdit'',
      handleErrors = (\<lambda>result fallback. result)\<rparr>"

definition example_range :: "string \<Rightarrow> nat \<Rightarrow> nat \<Rightarrow> nat \<Rightarrow> nat \<Rightarrow> sourceRange" where
  "example_range path l1 c1 l2 c2 =
     \<lparr>range_file = path, range_start = \<lparr>line = l1, column = c1\<rparr>,
      range_end = \<lparr>line = l2, column = c2\<rparr>\<rparr>"

definition example_warning :: "string \<Rightarrow> string \<Rightarrow> warning" where
  "example_warning path c =
     \<lparr>w_code = c, sourceRange = example_range path 0 0 0 5, w_fix = None, actions = None\<rparr>"

definition example_state :: "string list \<Rightarrow> (string, string) state" where
  "example_state reported =
     \<lparr>linter = [], urisReportedWarningsFor = reported, sent = [], calls = []\<rparr>"

text \<open>
  An instance of \<open>handleErrors\<close> that answers the fallback value when the promise it is
  given is rejected, the use that the second argument of the call in the code-action
  handler provides for.
\<close>

definition handleErrors_fallback :: "error + 'a \<Rightarrow> 'a \<Rightarrow> error + 'a" where
  "handleErrors_fallback result fallbackValue =
     (case result of Inl e \<Rightarrow> Inr fallbackValue | Inr v \<Rightarrow> Inr v)"

text \<open>A code-action request on a document, for a range, with one diagnostic in its context.\<close>

definition example_request :: "string \<Rightarrow> sourceRange \<Rightarrow> (string, sourceRange) codeActionParams" where
  "example_request uri r = \<lparr>textDocument = uri, req_range = r, context_diagnostics = [''w1'']\<rparr>"

text \<open>A replacement of the first five columns of a file's first line.\<close>

definition example_replacement :: "string \<Rightarrow> string \<Rightarrow> replacement" where
  "example_replacement path t =
     \<lparr>repl_range = example_range path 0 0 0 5, replacementText = t\<rparr>"

text \<open>
  Three warnings of \<open>a.js\<close>: one with a fix, on columns 0 to 5 of the first line; one
  with a fix, on columns 0 to 6; one without a fix, on columns 2 to 4, with an action of
  kind \<open>edit\<close> whose description has two lines.
\<close>

definition example_w1 :: warning where
  "example_w1 =
     (example_warning ''a.js'' ''w1'')\<lparr>w_fix := Some [example_replacement ''a.js'' ''x'']\<rparr>"

definition example_w2 :: warning where
  "example_w2 =
     (example_warning ''a.js'' ''w2'')
       \<lparr>sourceRange := example_range ''a.js'' 0 0 0 6,
        w_fix := Some [example_replacement ''a.js'' ''y'']\<rparr>"

definition example_w3 :: warning where
  "example_w3 =
     (example_warning ''a.js'' ''w3'')
       \<lparr>sourceRange := example_range ''a.js'' 0 2 0 4,
        actions := Some [\<lparr>kind = ''edit'', description = ''Do it'' @ [CHR 0x0A] @ ''at once'',
                          edit = [example_replacement ''a.js'' ''z'']\<rparr>]\<rparr>"

definition example_fixable :: "warning list" where
  "example_fixable = [example_w1, example_w2, example_w3]"

section \<open>Properties\<close>

subsection \<open>Sets and maps in insertion order\<close>

lemma set_add_set [simp]: "set (set_add x xs) = insert x (set xs)"
  by (auto simp: set_add_def)

lemma set_add_distinct [simp]: "distinct (set_add x xs) = distinct xs"
  by (auto simp: set_add_def)

lemma foldl_set_add_set: "set (foldl (\<lambda>s x. set_add x s) acc xs) = set acc \<union> set xs"
  by (induction xs arbitrary: acc) auto

lemma foldl_set_add_distinct: "distinct (foldl (\<lambda>s x. set_add x s) acc xs) = distinct acc"
  by (induction xs arbitrary: acc) auto

lemma new_Set_set [simp]: "set (new_Set xs) = set xs"
  by (simp add: new_Set_def foldl_set_add_set)

lemma new_Set_distinct [simp]: "distinct (new_Set xs)"
  by (simp add: new_Set_def foldl_set_add_distinct)

lemma map_set_keys: "map fst (map_set k v m) = set_add k (map fst m)"
  by (induction m) (force simp: set_add_def)+

lemma map_set_lookup: "map_of (map_set k v m) k' = (if k' = k then Some v else map_of m k')"
  by (induction m) auto

subsection \<open>The grouping loop and the publishes\<close>

lemma foldl_send: "foldl (\<lambda>t p. sendDiagnostics p t) s ps = s\<lparr>sent := sent s @ ps\<rparr>"
  by (induction ps arbitrary: s) (auto simp: sendDiagnostics_def)

lemma foldl_send_clear:
  "foldl (\<lambda>t u. sendDiagnostics (u, []) t) s us = s\<lparr>sent := sent s @ map (\<lambda>u. (u, [])) us\<rparr>"
  by (induction us arbitrary: s) (auto simp: sendDiagnostics_def)

lemma loop_keys:
  "map fst (reportWarnings_loop conv ws m) =
     foldl (\<lambda>s x. set_add x s) (map fst m) (map (warningUri conv) ws)"
  by (induction ws arbitrary: m) (auto simp: map_set_keys Let_def)

lemma loop_lookup:
  "map_of (reportWarnings_loop conv ws m) u =
     (if u \<in> warningUri conv ` set ws \<or> map_of m u \<noteq> None
      then Some ((case map_of m u of None \<Rightarrow> [] | Some ds \<Rightarrow> ds) @
                 map (convertWarningToDiagnostic conv) (filter (\<lambda>w. warningUri conv w = u) ws))
      else None)"
  by (induction ws arbitrary: m) (auto simp: map_set_lookup Let_def map_get_def split: option.splits)

lemma package_loop:
  "reportPackageWarnings_loop conv ws (r, us, m) =
     (filter (\<lambda>x. x \<notin> warningUri conv ` set ws) r,
      foldl (\<lambda>s x. set_add x s) us (map (warningUri conv) ws),
      reportWarnings_loop conv ws m)"
proof (induction ws arbitrary: r us m)
  case Nil
  then show ?case by simp
next
  case (Cons w ws)
  have "filter (\<lambda>x. x \<notin> warningUri conv ` set ws) (removeAll (warningUri conv w) r) =
        filter (\<lambda>x. x \<notin> warningUri conv ` set (w # ws)) r"
    by (induction r) auto
  with Cons show ?case by (simp add: Let_def set_delete_def)
qed

subsection \<open>Counting clears\<close>

lemma clears_append [simp]: "clears u (xs @ ys) = clears u xs + clears u ys"
  by (simp add: clears_def)

lemma clears_Nil [simp]: "clears u [] = 0"
  by (simp add: clears_def)

lemma clears_map_clear_count:
  "clears u (map (\<lambda>x. (x, [])) us) = length (filter (\<lambda>x. x = u) us)"
  by (induction us) (auto simp: clears_def)

lemma count_distinct:
  "distinct us \<Longrightarrow> length (filter (\<lambda>x. x = u) us) = (if u \<in> set us then 1 else 0)"
  by (induction us) auto

lemma clears_map_clear:
  "distinct us \<Longrightarrow> clears u (map (\<lambda>x. (x, [])) us) = (if u \<in> set us then 1 else 0)"
  by (simp only: clears_map_clear_count count_distinct)

lemma loop_distinct: "distinct (map fst (reportWarnings_loop conv ws []))"
  by (simp add: loop_keys foldl_set_add_distinct)

lemma loop_key_set: "fst ` set (reportWarnings_loop conv ws []) = warningUri conv ` set ws"
proof -
  have "set (map fst (reportWarnings_loop conv ws [])) = warningUri conv ` set ws"
    by (simp add: loop_keys foldl_set_add_set)
  then show ?thesis by simp
qed

lemma loop_entry:
  assumes "(u, ds) \<in> set (reportWarnings_loop conv ws [])"
  shows "ds = map (convertWarningToDiagnostic conv) (filter (\<lambda>w. warningUri conv w = u) ws)"
    and "ds \<noteq> []" and "u \<in> warningUri conv ` set ws"
proof -
  have "map_of (reportWarnings_loop conv ws []) u = Some ds"
    using assms loop_distinct [of conv ws] by (simp add: map_of_eq_Some_iff)
  then have *: "u \<in> warningUri conv ` set ws \<and>
      ds = map (convertWarningToDiagnostic conv) (filter (\<lambda>w. warningUri conv w = u) ws)"
    by (simp add: loop_lookup split: if_splits)
  then show "ds = map (convertWarningToDiagnostic conv) (filter (\<lambda>w. warningUri conv w = u) ws)"
    and "u \<in> warningUri conv ` set ws" by simp_all
  from * obtain w where "w \<in> set ws" "warningUri conv w = u" by auto
  then have "filter (\<lambda>w. warningUri conv w = u) ws \<noteq> []"
    by (auto simp: filter_empty_conv)
  with * show "ds \<noteq> []" by simp
qed

lemma clears_loop: "clears u (reportWarnings_loop conv ws []) = 0"
  using loop_entry(2) [of _ _ conv ws] by (auto simp: clears_def filter_empty_conv)

lemma reportPackageWarnings_eq:
  "reportPackageWarnings env ws s =
     s\<lparr>urisReportedWarningsFor := new_Set (map_keys (reportWarnings_loop (converter env) ws [])),
       sent := sent s @ reportWarnings_loop (converter env) ws [] @
               map (\<lambda>u. (u, []))
                 (filter (\<lambda>x. x \<notin> warningUri (converter env) ` set ws)
                    (new_Set (urisReportedWarningsFor s)))\<rparr>"
  by (simp add: reportPackageWarnings_def package_loop foldl_send foldl_send_clear Let_def)

subsection \<open>The whole-package cycle\<close>

lemma package_cycle:
  assumes "analyzeWholePackage (settings env)"
    and "linter_lintPackage env (linter s) = Inr ws"
  shows "reportWarnings env s =
     (Inr (),
      s\<lparr>calls := calls s @ [LintPackage (linter s)],
        urisReportedWarningsFor := new_Set (map_keys (reportWarnings_loop (converter env) ws [])),
        sent := sent s @ reportWarnings_loop (converter env) ws [] @
                map (\<lambda>u. (u, [])) (clearedUris (converter env) ws (urisReportedWarningsFor s))\<rparr>)"
  using assms by (simp add: reportWarnings_def reportPackageWarnings_eq clearedUris_def Let_def)

lemma clears_cycle_output:
  "clears u (reportWarnings_loop conv ws [] @ map (\<lambda>u. (u, [])) (clearedUris conv ws reported)) =
     (if u \<in> set reported - warningUri conv ` set ws then 1 else 0)"
proof -
  have "distinct (clearedUris conv ws reported)"
    by (simp add: clearedUris_def)
  then have "clears u (map (\<lambda>u. (u, [])) (clearedUris conv ws reported)) =
      (if u \<in> set (clearedUris conv ws reported) then 1 else 0)"
    by (rule clears_map_clear)
  moreover have "set (clearedUris conv ws reported) = set reported - warningUri conv ` set ws"
    by (auto simp: clearedUris_def)
  ultimately show ?thesis by (simp add: clears_loop)
qed

lemma package_cycle_reported:
  "set (map_keys (reportWarnings_loop conv ws [])) = warningUri conv ` set ws"
  using loop_key_set [of conv ws] by (simp add: map_keys_def)

text \<open>
  Claim C1. A whole-package reporting cycle whose lint pass succeeds, started with the
  Reported-State Set \<open>R\<close> and finding warnings in the files with URIs \<open>S\<close>,
  publishes exactly one clear for every URI of \<open>R - S\<close> and no clear for any other
  URI, and leaves \<open>S\<close> as the Reported-State Set. Hence a URI with warnings in one
  cycle and none in the next is cleared exactly once over the two cycles: not in the
  first, once in the second.
\<close>

theorem whole_package_cycle_clears_exactly_once:
  fixes env :: "('d, 'l, 'e, 'r) env"
  assumes whole: "analyzeWholePackage (settings env)"
    and lint1: "linter_lintPackage env (linter s) = Inr warnings"
  shows "fst (reportWarnings env s) = Inr () \<and>
    (\<exists>out. sent (snd (reportWarnings env s)) = sent s @ out \<and>
       (\<forall>u. clears u out =
          (if u \<in> set (urisReportedWarningsFor s) - warningUri (converter env) ` set warnings
           then 1 else 0))) \<and>
    set (urisReportedWarningsFor (snd (reportWarnings env s))) =
      warningUri (converter env) ` set warnings \<and>
    (\<forall>(env2 :: ('d, 'l, 'e, 'r) env) warnings2 u.
       analyzeWholePackage (settings env2) \<and>
       linter_lintPackage env2 (linter (snd (reportWarnings env s))) = Inr warnings2 \<and>
       u \<in> warningUri (converter env) ` set warnings \<and>
       u \<notin> warningUri (converter env2) ` set warnings2 \<longrightarrow>
       (\<exists>out1 out2.
          sent (snd (reportWarnings env s)) = sent s @ out1 \<and>
          sent (snd (reportWarnings env2 (snd (reportWarnings env s)))) = sent s @ out1 @ out2 \<and>
          clears u out1 = 0 \<and> clears u out2 = 1))"
proof -
  let ?conv = "converter env"
  let ?out = "reportWarnings_loop ?conv warnings [] @
     map (\<lambda>u. (u, [])) (clearedUris ?conv warnings (urisReportedWarningsFor s))"
  let ?s' = "snd (reportWarnings env s)"
  note c1 = package_cycle [OF whole lint1]
  have res: "fst (reportWarnings env s) = Inr ()"
    by (simp add: c1)
  have sent1: "sent ?s' = sent s @ ?out"
    by (simp add: c1)
  have cl1: "clears u ?out =
      (if u \<in> set (urisReportedWarningsFor s) - warningUri ?conv ` set warnings then 1 else 0)" for u
    by (rule clears_cycle_output)
  have rep1: "set (urisReportedWarningsFor ?s') = warningUri ?conv ` set warnings"
    by (simp add: c1 package_cycle_reported)
  have two: "\<exists>out1 out2.
          sent ?s' = sent s @ out1 \<and>
          sent (snd (reportWarnings env2 ?s')) = sent s @ out1 @ out2 \<and>
          clears u out1 = 0 \<and> clears u out2 = 1"
    if whole2: "analyzeWholePackage (settings env2)"
      and lint2: "linter_lintPackage env2 (linter ?s') = Inr warnings2"
      and in1: "u \<in> warningUri ?conv ` set warnings"
      and out2: "u \<notin> warningUri (converter env2) ` set warnings2"
    for env2 :: "('d, 'l, 'e, 'r) env" and warnings2 u
  proof -
    let ?out2 = "reportWarnings_loop (converter env2) warnings2 [] @
       map (\<lambda>u. (u, [])) (clearedUris (converter env2) warnings2 (urisReportedWarningsFor ?s'))"
    note c2 = package_cycle [OF whole2 lint2]
    have "sent (snd (reportWarnings env2 ?s')) = sent s @ ?out @ ?out2"
      by (simp add: c2 sent1)
    moreover have "clears u ?out = 0"
      using in1 by (simp only: cl1) simp
    moreover have "clears u ?out2 = 1"
      using in1 out2 rep1 by (simp only: clears_cycle_output) simp
    ultimately show ?thesis using sent1 by blast
  qed
  from sent1 cl1 have "\<exists>out. sent ?s' = sent s @ out \<and>
       (\<forall>u. clears u out =
          (if u \<in> set (urisReportedWarningsFor s) - warningUri ?conv ` set warnings
           then 1 else 0))"
    by blast
  with res rep1 two show ?thesis by blast
qed

lemmas example_defs =
  example_converter_def example_env_def example_range_def example_warning_def example_state_def

theorem whole_package_cycle_clears_exactly_once_witness:
  "analyzeWholePackage (settings (example_env True [] (Inr [example_warning ''a.js'' ''w1'']))) \<and>
   linter_lintPackage (example_env True [] (Inr [example_warning ''a.js'' ''w1'']))
     (linter (example_state [''file://b.js''])) = Inr [example_warning ''a.js'' ''w1''] \<and>
   set (urisReportedWarningsFor
     (snd (reportWarnings (example_env True [] (Inr [example_warning ''a.js'' ''w1'']))
        (example_state [''file://b.js''])))) = {''file://a.js''} \<and>
   (\<exists>out1 out2.
      sent (snd (reportWarnings (example_env True [] (Inr []))
        (snd (reportWarnings (example_env True [] (Inr [example_warning ''a.js'' ''w1'']))
           (example_state [''file://b.js'']))))) = out1 @ out2 \<and>
      clears ''file://a.js'' out1 = 0 \<and> clears ''file://a.js'' out2 = 1)"
proof -
  let ?E1 = "example_env True [] (Inr [example_warning ''a.js'' ''w1''])"
  let ?E2 = "example_env True [] (Inr []) :: (string, sourceRange, edit, string) env"
  let ?S0 = "example_state [''file://b.js'']"
  have h1: "analyzeWholePackage (settings ?E1)"
    by (simp add: example_defs)
  have h2: "linter_lintPackage ?E1 (linter ?S0) = Inr [example_warning ''a.js'' ''w1'']"
    by (simp add: example_defs)
  note t = whole_package_cycle_clears_exactly_once [OF h1 h2]
  have uris: "warningUri (converter ?E1) ` set [example_warning ''a.js'' ''w1''] = {''file://a.js''}"
    by (simp add: example_defs warningUri_def)
  from t have rep: "set (urisReportedWarningsFor (snd (reportWarnings ?E1 ?S0))) = {''file://a.js''}"
    by (simp only: uris)
  from t have two: "analyzeWholePackage (settings ?E2) \<and>
       linter_lintPackage ?E2 (linter (snd (reportWarnings ?E1 ?S0))) = Inr [] \<and>
       ''file://a.js'' \<in> warningUri (converter ?E1) ` set [example_warning ''a.js'' ''w1''] \<and>
       ''file://a.js'' \<notin> warningUri (converter ?E2) ` set [] \<longrightarrow>
       (\<exists>out1 out2.
          sent (snd (reportWarnings ?E1 ?S0)) = sent ?S0 @ out1 \<and>
          sent (snd (reportWarnings ?E2 (snd (reportWarnings ?E1 ?S0)))) = sent ?S0 @ out1 @ out2 \<and>
          clears ''file://a.js'' out1 = 0 \<and> clears ''file://a.js'' out2 = 1)"
    by blast
  have "\<exists>out1 out2.
          sent (snd (reportWarnings ?E1 ?S0)) = sent ?S0 @ out1 \<and>
          sent (snd (reportWarnings ?E2 (snd (reportWarnings ?E1 ?S0)))) = sent ?S0 @ out1 @ out2 \<and>
          clears ''file://a.js'' out1 = 0 \<and> clears ''file://a.js'' out2 = 1"
  proof (rule two [rule_format], intro conjI)
    show "analyzeWholePackage (settings ?E2)" by (simp add: example_defs)
    show "linter_lintPackage ?E2 (linter (snd (reportWarnings ?E1 ?S0))) = Inr []"
      by (simp add: example_defs)
    show "''file://a.js'' \<in> warningUri (converter ?E1) ` set [example_warning ''a.js'' ''w1'']"
      by (simp only: uris) simp
    show "''file://a.js'' \<notin> warningUri (converter ?E2) ` set []" by simp
  qed
  then have "\<exists>out1 out2.
      sent (snd (reportWarnings ?E2 (snd (reportWarnings ?E1 ?S0)))) = out1 @ out2 \<and>
      clears ''file://a.js'' out1 = 0 \<and> clears ''file://a.js'' out2 = 1"
    by (auto simp: example_state_def)
  with h1 h2 rep show ?thesis by blast
qed

subsection \<open>The open-documents cycle\<close>

lemma reportOpenWarnings_eq:
  "reportOpenWarnings env ws s = s\<lparr>sent := sent s @ reportWarnings_loop (converter env) ws []\<rparr>"
  by (simp add: reportOpenWarnings_def foldl_send)

lemma open_cycle:
  assumes "\<not> analyzeWholePackage (settings env)"
    and "linter_lint env (linter s) (openPaths env) = Inr ws"
  shows "reportWarnings env s =
     (Inr (),
      s\<lparr>calls := calls s @ [Lint (linter s) (openPaths env)],
        sent := sent s @ reportWarnings_loop (converter env) ws []\<rparr>)"
  using assms by (simp add: reportWarnings_def reportOpenWarnings_eq openPaths_def Let_def)

lemma failed_cycle:
  "analyzeWholePackage (settings env) \<Longrightarrow> linter_lintPackage env (linter s) = Inl e \<Longrightarrow>
     reportWarnings env s = (Inl e, s\<lparr>calls := calls s @ [LintPackage (linter s)]\<rparr>)"
  "\<not> analyzeWholePackage (settings env) \<Longrightarrow> linter_lint env (linter s) (openPaths env) = Inl e \<Longrightarrow>
     reportWarnings env s = (Inl e, s\<lparr>calls := calls s @ [Lint (linter s) (openPaths env)]\<rparr>)"
  by (simp_all add: reportWarnings_def openPaths_def Let_def)

lemma reportWarnings_linter: "linter (snd (reportWarnings env s)) = linter s"
  by (simp add: reportWarnings_def reportPackageWarnings_eq reportOpenWarnings_eq Let_def
      split: sum.splits)

lemma reportWarnings_calls:
  "calls (snd (reportWarnings env s)) =
     calls s @ [if analyzeWholePackage (settings env) then LintPackage (linter s)
                else Lint (linter s) (openPaths env)]"
  by (simp add: reportWarnings_def reportPackageWarnings_eq reportOpenWarnings_eq openPaths_def
      Let_def split: sum.splits)

lemma reportWarnings_sent: "\<exists>out. sent (snd (reportWarnings env s)) = sent s @ out"
  by (simp add: reportWarnings_def reportPackageWarnings_eq reportOpenWarnings_eq Let_def
      split: sum.splits)

lemma open_cycle_reported:
  "\<not> analyzeWholePackage (settings env) \<Longrightarrow>
     urisReportedWarningsFor (snd (reportWarnings env s)) = urisReportedWarningsFor s"
  by (simp add: reportWarnings_def reportOpenWarnings_eq Let_def split: sum.splits)

lemma open_cycle_ignores_reported:
  "\<not> analyzeWholePackage (settings env) \<Longrightarrow>
     reportWarnings env (s\<lparr>urisReportedWarningsFor := X\<rparr>) =
       (fst (reportWarnings env s), (snd (reportWarnings env s))\<lparr>urisReportedWarningsFor := X\<rparr>)"
  by (simp add: reportWarnings_def reportOpenWarnings_eq Let_def split: sum.splits)

text \<open>
  Claim C7. In open-documents-only mode a reporting cycle makes one call to the lint
  engine, for exactly the workspace paths of the open documents, and no publish of the
  cycle is a clear. When the call succeeds the cycle publishes one batch for each URI
  that has warnings, holding that file's diagnostics in the engine's order.
\<close>

theorem open_documents_cycle_publishes_without_clearing:
  assumes "\<not> analyzeWholePackage (settings env)"
  shows "calls (snd (reportWarnings env s)) =
      calls s @ [Lint (linter s)
        (map (getWorkspacePathToFile (converter env)) (documents_keys env))] \<and>
    (\<exists>out. sent (snd (reportWarnings env s)) = sent s @ out \<and>
       (\<forall>u. clears u out = 0) \<and>
       (\<forall>ws. linter_lint env (linter s)
                (map (getWorkspacePathToFile (converter env)) (documents_keys env)) = Inr ws \<longrightarrow>
          distinct (map fst out) \<and>
          fst ` set out = warningUri (converter env) ` set ws \<and>
          (\<forall>(u, ds) \<in> set out.
             ds \<noteq> [] \<and>
             ds = map (convertWarningToDiagnostic (converter env))
                    (filter (\<lambda>w. warningUri (converter env) w = u) ws))))"
proof
  show "calls (snd (reportWarnings env s)) =
      calls s @ [Lint (linter s)
        (map (getWorkspacePathToFile (converter env)) (documents_keys env))]"
    using assms by (simp add: reportWarnings_calls openPaths_def)
next
  let ?P = "\<lambda>out. sent (snd (reportWarnings env s)) = sent s @ out \<and>
       (\<forall>u. clears u out = 0) \<and>
       (\<forall>ws. linter_lint env (linter s)
                (map (getWorkspacePathToFile (converter env)) (documents_keys env)) = Inr ws \<longrightarrow>
          distinct (map fst out) \<and>
          fst ` set out = warningUri (converter env) ` set ws \<and>
          (\<forall>(u, ds) \<in> set out.
             ds \<noteq> [] \<and>
             ds = map (convertWarningToDiagnostic (converter env))
                    (filter (\<lambda>w. warningUri (converter env) w = u) ws)))"
  show "\<exists>out. ?P out"
  proof (cases "linter_lint env (linter s) (openPaths env)")
    case (Inl e)
    then have "sent (snd (reportWarnings env s)) = sent s @ []"
      by (simp add: failed_cycle(2) [OF assms])
    moreover from Inl have "linter_lint env (linter s)
        (map (getWorkspacePathToFile (converter env)) (documents_keys env)) \<noteq> Inr ws" for ws
      by (simp add: openPaths_def)
    ultimately have "?P []" by simp
    then show ?thesis ..
  next
    case (Inr ws)
    let ?out = "reportWarnings_loop (converter env) ws []"
    have "sent (snd (reportWarnings env s)) = sent s @ ?out"
      by (simp add: open_cycle [OF assms Inr])
    moreover have "\<forall>u. clears u ?out = 0"
      by (simp add: clears_loop)
    moreover have "distinct (map fst ?out)"
      by (rule loop_distinct)
    moreover have "fst ` set ?out = warningUri (converter env) ` set ws"
      by (rule loop_key_set)
    moreover have "\<forall>(u, ds) \<in> set ?out.
        ds \<noteq> [] \<and>
        ds = map (convertWarningToDiagnostic (converter env))
               (filter (\<lambda>w. warningUri (converter env) w = u) ws)"
      using loop_entry(1,2) [of _ _ "converter env" ws] by blast
    moreover from Inr have "linter_lint env (linter s)
        (map (getWorkspacePathToFile (converter env)) (documents_keys env)) = Inr ws' \<longrightarrow>
        ws' = ws" for ws'
      by (simp add: openPaths_def)
    ultimately have "?P ?out" by blast
    then show ?thesis ..
  qed
qed

theorem open_documents_cycle_publishes_without_clearing_witness:
  "\<not> analyzeWholePackage (settings (example_env False [''file://a.js'', ''file://b.js'']
       (Inr [example_warning ''a.js'' ''w1'', example_warning ''a.js'' ''w2'']))) \<and>
   calls (snd (reportWarnings (example_env False [''file://a.js'', ''file://b.js'']
       (Inr [example_warning ''a.js'' ''w1'', example_warning ''a.js'' ''w2'']))
     (example_state [''file://b.js'']))) = [Lint [] [''a.js'', ''b.js'']] \<and>
   sent (snd (reportWarnings (example_env False [''file://a.js'', ''file://b.js'']
       (Inr [example_warning ''a.js'' ''w1'', example_warning ''a.js'' ''w2'']))
     (example_state [''file://b.js'']))) = [(''file://a.js'', [''w1'', ''w2''])]"
proof -
  let ?E = "example_env False [''file://a.js'', ''file://b.js'']
       (Inr [example_warning ''a.js'' ''w1'', example_warning ''a.js'' ''w2''])"
  have h: "\<not> analyzeWholePackage (settings ?E)"
    by (simp add: example_defs)
  have "calls (snd (reportWarnings ?E (example_state [''file://b.js'']))) =
      [Lint [] [''a.js'', ''b.js'']]"
    using open_documents_cycle_publishes_without_clearing [OF h, of "example_state [''file://b.js'']"]
    by (simp add: example_defs)
  moreover have "sent (snd (reportWarnings ?E (example_state [''file://b.js'']))) =
      [(''file://a.js'', [''w1'', ''w2''])]"
    by (simp add: example_defs reportWarnings_def reportOpenWarnings_eq warningUri_def
        map_get_def Let_def)
  ultimately show ?thesis using h by blast
qed

subsection \<open>Closing a document\<close>

text \<open>
  Claim C8. When a document is closed in open-documents-only mode, exactly one publish
  is sent, a clear for the closed document's URI, and no lint pass is involved; in
  whole-package mode the close sends nothing and changes nothing.
\<close>

theorem close_clears_only_in_open_documents_mode:
  "(\<not> analyzeWholePackage (settings env) \<longrightarrow>
      onDidCloseTextDocument env uri s = s\<lparr>sent := sent s @ [(uri, [])]\<rparr> \<and>
      calls (onDidCloseTextDocument env uri s) = calls s) \<and>
   (analyzeWholePackage (settings env) \<longrightarrow> onDidCloseTextDocument env uri s = s)"
  by (simp add: onDidCloseTextDocument_def sendDiagnostics_def)

theorem close_clears_only_in_open_documents_mode_witness:
  "\<not> analyzeWholePackage (settings (example_env False [] (Inr []))) \<and>
   sent (onDidCloseTextDocument (example_env False [] (Inr [])) ''file://a.js''
           (example_state [])) = [(''file://a.js'', [])] \<and>
   analyzeWholePackage (settings (example_env True [] (Inr []))) \<and>
   sent (onDidCloseTextDocument (example_env True [] (Inr [])) ''file://a.js''
           (example_state [])) = []"
  using close_clears_only_in_open_documents_mode
      [of "example_env False [] (Inr [])" "''file://a.js''" "example_state []"]
    close_clears_only_in_open_documents_mode
      [of "example_env True [] (Inr [])" "''file://a.js''" "example_state []"]
  by (simp add: example_defs)

subsection \<open>What each operation leaves of the Reported-State Set\<close>

lemma getCodeActions_reported:
  "urisReportedWarningsFor (snd (getCodeActions env req s)) = urisReportedWarningsFor s"
  by (simp add: getCodeActions_def Let_def split: sum.splits)

lemma onCodeAction_parts:
  "fst (onCodeAction env req s) = handleErrors env (fst (getCodeActions env req s)) []"
  "snd (onCodeAction env req s) = snd (getCodeActions env req s)"
  by (simp_all add: onCodeAction_def split_beta)

lemma onCodeAction_reported:
  "urisReportedWarningsFor (snd (onCodeAction env req s)) = urisReportedWarningsFor s"
  by (simp add: onCodeAction_parts getCodeActions_reported)

lemma getAllFixes_reported:
  "urisReportedWarningsFor (snd (getAllFixes env s)) = urisReportedWarningsFor s"
  by (simp add: getAllFixes_def Let_def split: sum.splits)

lemma getFixesForFile_reported:
  "urisReportedWarningsFor (snd (getFixesForFile env uri s)) = urisReportedWarningsFor s"
  by (simp add: getFixesForFile_def Let_def split: sum.splits)

lemma onDidCloseTextDocument_reported:
  "urisReportedWarningsFor (onDidCloseTextDocument env uri s) = urisReportedWarningsFor s"
  by (simp add: onDidCloseTextDocument_def sendDiagnostics_def)

lemma updateLinter_open_reported:
  "\<not> analyzeWholePackage (settings env) \<Longrightarrow>
     urisReportedWarningsFor (snd (updateLinter env s)) = urisReportedWarningsFor s"
  by (simp add: updateLinter_def open_cycle_reported Let_def)

lemma switch_out_eq:
  "\<not> analyzeWholePackage newer \<Longrightarrow> analyzeWholePackage older \<Longrightarrow>
     onSettingsChange env newer older s =
       snd (reportWarnings env
         (s\<lparr>sent := sent s @ map (\<lambda>u. (u, [])) (urisReportedWarningsFor s)\<rparr>))"
  by (simp add: onSettingsChange_def foldl_send_clear Let_def)

lemma switch_in_eq:
  "analyzeWholePackage newer \<Longrightarrow> \<not> analyzeWholePackage older \<Longrightarrow>
     onSettingsChange env newer older s =
       snd (reportWarnings env (s\<lparr>urisReportedWarningsFor := new_Set (documents_keys env)\<rparr>))"
  by (simp add: onSettingsChange_def Let_def)

lemma onSettingsChange_open_reported:
  assumes "\<not> analyzeWholePackage (settings env)"
    and "\<not> (analyzeWholePackage newer \<and> \<not> analyzeWholePackage older)"
  shows "urisReportedWarningsFor (onSettingsChange env newer older s) = urisReportedWarningsFor s"
proof (cases "analyzeWholePackage newer \<noteq> analyzeWholePackage older")
  case True
  with assms(2) have "\<not> analyzeWholePackage newer" "analyzeWholePackage older" by auto
  then show ?thesis
    by (simp add: switch_out_eq open_cycle_reported [OF assms(1)])
next
  case False
  then show ?thesis by (simp add: onSettingsChange_def)
qed

text \<open>
  The list that stands for the Reported-State Set never holds a URI twice: not after the
  constructor, and not after any stimulus if not before it.
\<close>

lemma reportWarnings_distinct:
  "distinct (urisReportedWarningsFor s) \<Longrightarrow>
     distinct (urisReportedWarningsFor (snd (reportWarnings env s)))"
  by (simp add: reportWarnings_def reportPackageWarnings_eq reportOpenWarnings_eq Let_def
      split: sum.splits)

lemma constructed_distinct: "distinct (urisReportedWarningsFor (constructed env))"
  by (simp add: constructed_def updateLinter_def initial_state_def reportWarnings_distinct
      new_Set_def Let_def)

lemma react_distinct:
  assumes "distinct (urisReportedWarningsFor s)"
  shows "distinct (urisReportedWarningsFor (react env ev s))"
proof (cases ev)
  case (SettingsChange nw od)
  then show ?thesis
    using assms
    by (simp add: onSettingsChange_def foldl_send_clear reportWarnings_distinct Let_def)
next
  case ProjectConfigChange
  then show ?thesis
    using assms by (simp add: updateLinter_def reportWarnings_distinct Let_def)
qed (use assms in \<open>simp_all add: onDidCloseTextDocument_reported onFileChanges_def
      reportWarnings_distinct onCodeAction_reported getAllFixes_reported
      getFixesForFile_reported\<close>)

text \<open>
  Claim C10. Switching out of whole-package mode sends the clears and leaves the
  Reported-State Set as it was. A cycle in open-documents-only mode does not change the
  set and its outcome does not depend on it. Whatever the stimulus, the set changes only
  when a cycle runs in whole-package mode or when the mode is switched to whole-package.
\<close>

theorem reported_set_kept_outside_whole_package:
  "(\<not> analyzeWholePackage newer \<and> analyzeWholePackage older \<and>
    \<not> analyzeWholePackage (settings env) \<longrightarrow>
      urisReportedWarningsFor (onSettingsChange env newer older s) = urisReportedWarningsFor s \<and>
      (\<exists>out. sent (onSettingsChange env newer older s) =
         sent s @ map (\<lambda>u. (u, [])) (urisReportedWarningsFor s) @ out)) \<and>
   (\<not> analyzeWholePackage (settings env) \<longrightarrow>
      urisReportedWarningsFor (snd (reportWarnings env s)) = urisReportedWarningsFor s \<and>
      (\<forall>X. reportWarnings env (s\<lparr>urisReportedWarningsFor := X\<rparr>) =
         (fst (reportWarnings env s),
          (snd (reportWarnings env s))\<lparr>urisReportedWarningsFor := X\<rparr>))) \<and>
   (urisReportedWarningsFor (react env ev s) \<noteq> urisReportedWarningsFor s \<longrightarrow>
      (analyzeWholePackage (settings env) \<and> runsCycle ev) \<or>
      (\<exists>nw od. ev = SettingsChange nw od \<and> analyzeWholePackage nw \<and> \<not> analyzeWholePackage od))"
proof (intro conjI impI)
  assume a: "\<not> analyzeWholePackage newer \<and> analyzeWholePackage older \<and>
    \<not> analyzeWholePackage (settings env)"
  then show "urisReportedWarningsFor (onSettingsChange env newer older s) =
      urisReportedWarningsFor s"
    by (simp add: onSettingsChange_open_reported)
  from a have eq: "onSettingsChange env newer older s =
       snd (reportWarnings env
         (s\<lparr>sent := sent s @ map (\<lambda>u. (u, [])) (urisReportedWarningsFor s)\<rparr>))"
    by (simp add: switch_out_eq)
  show "\<exists>out. sent (onSettingsChange env newer older s) =
         sent s @ map (\<lambda>u. (u, [])) (urisReportedWarningsFor s) @ out"
    using reportWarnings_sent
      [of env "s\<lparr>sent := sent s @ map (\<lambda>u. (u, [])) (urisReportedWarningsFor s)\<rparr>"]
    by (simp add: eq)
next
  assume "\<not> analyzeWholePackage (settings env)"
  then show "urisReportedWarningsFor (snd (reportWarnings env s)) = urisReportedWarningsFor s"
    and "\<forall>X. reportWarnings env (s\<lparr>urisReportedWarningsFor := X\<rparr>) =
         (fst (reportWarnings env s),
          (snd (reportWarnings env s))\<lparr>urisReportedWarningsFor := X\<rparr>)"
    by (simp_all add: open_cycle_reported open_cycle_ignores_reported)
next
  assume changed: "urisReportedWarningsFor (react env ev s) \<noteq> urisReportedWarningsFor s"
  show "(analyzeWholePackage (settings env) \<and> runsCycle ev) \<or>
      (\<exists>nw od. ev = SettingsChange nw od \<and> analyzeWholePackage nw \<and> \<not> analyzeWholePackage od)"
  proof (cases ev)
    case (DidCloseTextDocument uri)
    with changed show ?thesis by (simp add: onDidCloseTextDocument_reported)
  next
    case ProjectConfigChange
    with changed show ?thesis using updateLinter_open_reported [of env s] by auto
  next
    case FileChanges
    with changed show ?thesis
      using open_cycle_reported [of env s] by (auto simp: onFileChanges_def)
  next
    case (SettingsChange nw od)
    show ?thesis
    proof (cases "analyzeWholePackage nw \<and> \<not> analyzeWholePackage od")
      case True
      with SettingsChange show ?thesis by simp
    next
      case False
      have "analyzeWholePackage (settings env)"
        using changed SettingsChange onSettingsChange_open_reported [OF _ False, of env s]
        by auto
      moreover have "analyzeWholePackage nw \<noteq> analyzeWholePackage od"
        using changed SettingsChange by (auto simp: onSettingsChange_def split: if_splits)
      ultimately show ?thesis using SettingsChange by simp
    qed
  next
    case (CodeAction req)
    with changed show ?thesis by (simp add: onCodeAction_reported)
  next
    case AllFixes
    with changed show ?thesis by (simp add: getAllFixes_reported)
  next
    case (FixesForFile uri)
    with changed show ?thesis by (simp add: getFixesForFile_reported)
  qed
qed

theorem reported_set_kept_outside_whole_package_witness:
  "\<not> analyzeWholePackage (settings (example_env False [''file://a.js''] (Inr []))) \<and>
   urisReportedWarningsFor
     (onSettingsChange (example_env False [''file://a.js''] (Inr []))
        \<lparr>analyzeWholePackage = False, projectConfig = \<lparr>lint = None\<rparr>\<rparr>
        \<lparr>analyzeWholePackage = True, projectConfig = \<lparr>lint = None\<rparr>\<rparr>
        (example_state [''file://a.js'', ''file://c.js''])) = [''file://a.js'', ''file://c.js''] \<and>
   sent
     (onSettingsChange (example_env False [''file://a.js''] (Inr []))
        \<lparr>analyzeWholePackage = False, projectConfig = \<lparr>lint = None\<rparr>\<rparr>
        \<lparr>analyzeWholePackage = True, projectConfig = \<lparr>lint = None\<rparr>\<rparr>
        (example_state [''file://a.js'', ''file://c.js''])) =
     [(''file://a.js'', []), (''file://c.js'', [])]"
proof -
  let ?E = "example_env False [''file://a.js''] (Inr [])"
  let ?nw = "\<lparr>analyzeWholePackage = False, projectConfig = \<lparr>lint = None\<rparr>\<rparr>"
  let ?od = "\<lparr>analyzeWholePackage = True, projectConfig = \<lparr>lint = None\<rparr>\<rparr>"
  let ?S = "example_state [''file://a.js'', ''file://c.js'']"
  have h: "\<not> analyzeWholePackage ?nw \<and> analyzeWholePackage ?od \<and>
      \<not> analyzeWholePackage (settings ?E)"
    by (simp add: example_defs)
  have "urisReportedWarningsFor (onSettingsChange ?E ?nw ?od ?S) = urisReportedWarningsFor ?S"
    using reported_set_kept_outside_whole_package [of ?nw ?od ?E ?S] h by blast
  then have "urisReportedWarningsFor (onSettingsChange ?E ?nw ?od ?S) =
      [''file://a.js'', ''file://c.js'']"
    by (simp add: example_defs)
  moreover have "sent (onSettingsChange ?E ?nw ?od ?S) =
      [(''file://a.js'', []), (''file://c.js'', [])]"
    by (simp add: switch_out_eq reportWarnings_def reportOpenWarnings_eq example_defs Let_def)
  ultimately show ?thesis using h by blast
qed

subsection \<open>Toggling the analysis mode\<close>

text \<open>
  Claim C3, as amended. When the analysis mode is toggled and the settings already hold
  the new mode: on a switch to whole-package the Reported-State Set becomes the set of
  the open documents' URIs and then a whole-package cycle runs on that state, so that
  the cycle sends one clear to each open document without warnings in its pass and none
  to a document with warnings; on a switch to open-documents-only a clear is sent for
  every URI of the Reported-State Set and then an open-documents cycle runs.
\<close>

theorem mode_toggle_seeds_or_clears_then_reports:
  assumes toggle: "analyzeWholePackage newer \<noteq> analyzeWholePackage older"
    and current: "analyzeWholePackage (settings env) = analyzeWholePackage newer"
  shows
    "(analyzeWholePackage newer \<longrightarrow>
        onSettingsChange env newer older s =
          snd (reportWarnings env
            (s\<lparr>urisReportedWarningsFor := new_Set (documents_keys env)\<rparr>)) \<and>
        set (new_Set (documents_keys env)) = set (documents_keys env) \<and>
        calls (onSettingsChange env newer older s) = calls s @ [LintPackage (linter s)] \<and>
        (\<forall>ws. linter_lintPackage env (linter s) = Inr ws \<longrightarrow>
           (\<exists>out. sent (onSettingsChange env newer older s) = sent s @ out \<and>
              (\<forall>u. clears u out =
                 (if u \<in> set (documents_keys env) - warningUri (converter env) ` set ws
                  then 1 else 0))))) \<and>
     (\<not> analyzeWholePackage newer \<longrightarrow>
        onSettingsChange env newer older s =
          snd (reportWarnings env
            (s\<lparr>sent := sent s @ map (\<lambda>u. (u, [])) (urisReportedWarningsFor s)\<rparr>)) \<and>
        calls (onSettingsChange env newer older s) =
          calls s @ [Lint (linter s)
            (map (getWorkspacePathToFile (converter env)) (documents_keys env))] \<and>
        (\<exists>out. sent (onSettingsChange env newer older s) =
           sent s @ map (\<lambda>u. (u, [])) (urisReportedWarningsFor s) @ out))"
proof (intro conjI impI allI)
  assume nw: "analyzeWholePackage newer"
  let ?s1 = "s\<lparr>urisReportedWarningsFor := new_Set (documents_keys env)\<rparr>"
  from nw toggle have eq: "onSettingsChange env newer older s = snd (reportWarnings env ?s1)"
    by (simp add: switch_in_eq)
  from nw current have whole: "analyzeWholePackage (settings env)" by simp
  show "onSettingsChange env newer older s = snd (reportWarnings env ?s1)" by (rule eq)
  show "set (new_Set (documents_keys env)) = set (documents_keys env)" by simp
  show "calls (onSettingsChange env newer older s) = calls s @ [LintPackage (linter s)]"
    using whole by (simp add: eq reportWarnings_calls)
  fix ws
  assume "linter_lintPackage env (linter s) = Inr ws"
  then have lint: "linter_lintPackage env (linter ?s1) = Inr ws" by simp
  let ?out = "reportWarnings_loop (converter env) ws [] @
     map (\<lambda>u. (u, [])) (clearedUris (converter env) ws (new_Set (documents_keys env)))"
  have "sent (onSettingsChange env newer older s) = sent s @ ?out"
    by (simp add: eq package_cycle [OF whole lint])
  moreover have "\<forall>u. clears u ?out =
      (if u \<in> set (documents_keys env) - warningUri (converter env) ` set ws then 1 else 0)"
    by (simp only: clears_cycle_output new_Set_set) simp
  ultimately show "\<exists>out. sent (onSettingsChange env newer older s) = sent s @ out \<and>
      (\<forall>u. clears u out =
         (if u \<in> set (documents_keys env) - warningUri (converter env) ` set ws
          then 1 else 0))"
    by blast
next
  assume nw: "\<not> analyzeWholePackage newer"
  let ?s1 = "s\<lparr>sent := sent s @ map (\<lambda>u. (u, [])) (urisReportedWarningsFor s)\<rparr>"
  from nw toggle have eq: "onSettingsChange env newer older s = snd (reportWarnings env ?s1)"
    by (simp add: switch_out_eq)
  from nw current have opn: "\<not> analyzeWholePackage (settings env)" by simp
  show "onSettingsChange env newer older s = snd (reportWarnings env ?s1)" by (rule eq)
  show "calls (onSettingsChange env newer older s) =
      calls s @ [Lint (linter s)
        (map (getWorkspacePathToFile (converter env)) (documents_keys env))]"
    using opn by (simp add: eq reportWarnings_calls openPaths_def)
  show "\<exists>out. sent (onSettingsChange env newer older s) =
      sent s @ map (\<lambda>u. (u, [])) (urisReportedWarningsFor s) @ out"
    using reportWarnings_sent [of env ?s1] by (simp add: eq)
qed

theorem mode_toggle_seeds_or_clears_then_reports_witness:
  "analyzeWholePackage \<lparr>analyzeWholePackage = True, projectConfig = \<lparr>lint = None\<rparr>\<rparr> \<noteq>
     analyzeWholePackage \<lparr>analyzeWholePackage = False, projectConfig = \<lparr>lint = None\<rparr>\<rparr> \<and>
   analyzeWholePackage (settings (example_env True [''file://a.js'', ''file://b.js'']
       (Inr [example_warning ''b.js'' ''w1'', example_warning ''c.js'' ''w2'']))) =
     analyzeWholePackage \<lparr>analyzeWholePackage = True, projectConfig = \<lparr>lint = None\<rparr>\<rparr> \<and>
   calls (onSettingsChange (example_env True [''file://a.js'', ''file://b.js'']
       (Inr [example_warning ''b.js'' ''w1'', example_warning ''c.js'' ''w2'']))
     \<lparr>analyzeWholePackage = True, projectConfig = \<lparr>lint = None\<rparr>\<rparr>
     \<lparr>analyzeWholePackage = False, projectConfig = \<lparr>lint = None\<rparr>\<rparr>
     (example_state [])) = [LintPackage []] \<and>
   sent (onSettingsChange (example_env True [''file://a.js'', ''file://b.js'']
       (Inr [example_warning ''b.js'' ''w1'', example_warning ''c.js'' ''w2'']))
     \<lparr>analyzeWholePackage = True, projectConfig = \<lparr>lint = None\<rparr>\<rparr>
     \<lparr>analyzeWholePackage = False, projectConfig = \<lparr>lint = None\<rparr>\<rparr>
     (example_state [])) =
     [(''file://b.js'', [''w1'']), (''file://c.js'', [''w2'']), (''file://a.js'', [])]"
proof -
  let ?E = "example_env True [''file://a.js'', ''file://b.js'']
       (Inr [example_warning ''b.js'' ''w1'', example_warning ''c.js'' ''w2''])"
  let ?nw = "\<lparr>analyzeWholePackage = True, projectConfig = \<lparr>lint = None\<rparr>\<rparr>"
  let ?od = "\<lparr>analyzeWholePackage = False, projectConfig = \<lparr>lint = None\<rparr>\<rparr>"
  have h1: "analyzeWholePackage ?nw \<noteq> analyzeWholePackage ?od" by simp
  have h2: "analyzeWholePackage (settings ?E) = analyzeWholePackage ?nw"
    by (simp add: example_defs)
  have nw: "analyzeWholePackage ?nw" by simp
  note t = mode_toggle_seeds_or_clears_then_reports
    [OF h1 h2, of "example_state []", THEN conjunct1, rule_format, OF nw]
  note eq = t [THEN conjunct1]
  have "calls (example_state []) = []" "linter (example_state []) = ([] :: string list)"
    by (simp_all add: example_state_def)
  with t [THEN conjunct2, THEN conjunct2, THEN conjunct1]
  have c: "calls (onSettingsChange ?E ?nw ?od (example_state [])) = [LintPackage []]"
    by simp
  have "sent (onSettingsChange ?E ?nw ?od (example_state [])) =
      [(''file://b.js'', [''w1'']), (''file://c.js'', [''w2'']), (''file://a.js'', [])]"
    unfolding eq
    by (simp add: example_defs reportWarnings_def reportPackageWarnings_eq warningUri_def
        map_get_def new_Set_def set_add_def Let_def)
  with h1 h2 c show ?thesis by blast
qed

text \<open>
  Claim C3 as stated says that after the seeding the cycle does not clear the open
  documents without cause. It does: a document that is open, has had nothing published
  for it and has no warnings in the pass is sent a clear by the first whole-package
  cycle, because the seeding has put it in the Reported-State Set.
\<close>

theorem mode_toggle_clears_open_document_without_warnings:
  "''file://a.js'' \<in> set (documents_keys
      (example_env True [''file://a.js''] (Inr [example_warning ''c.js'' ''w1'']))) \<and>
   sent (example_state []) = ([] :: (string \<times> string list) list) \<and>
   urisReportedWarningsFor (example_state []) = [] \<and>
   sent (onSettingsChange
     (example_env True [''file://a.js''] (Inr [example_warning ''c.js'' ''w1'']))
     \<lparr>analyzeWholePackage = True, projectConfig = \<lparr>lint = None\<rparr>\<rparr>
     \<lparr>analyzeWholePackage = False, projectConfig = \<lparr>lint = None\<rparr>\<rparr>
     (example_state [])) = [(''file://c.js'', [''w1'']), (''file://a.js'', [])] \<and>
   clears ''file://a.js'' (sent (onSettingsChange
     (example_env True [''file://a.js''] (Inr [example_warning ''c.js'' ''w1'']))
     \<lparr>analyzeWholePackage = True, projectConfig = \<lparr>lint = None\<rparr>\<rparr>
     \<lparr>analyzeWholePackage = False, projectConfig = \<lparr>lint = None\<rparr>\<rparr>
     (example_state []))) = 1"
  by (simp add: onSettingsChange_def example_defs reportWarnings_def reportPackageWarnings_eq
      warningUri_def map_get_def new_Set_def set_add_def clears_def Let_def)

subsection \<open>Rebuilding the linter\<close>

text \<open>
  Claim C9. When the project configuration names rules and the registry throws on
  looking them up, \<open>updateLinter\<close> returns normally, the linter is rebuilt with the
  empty rule set, and a reporting cycle runs with it: the one engine call of the cycle
  is made by a linter without rules, and what is sent is what that cycle sends.
\<close>

theorem rule_lookup_failure_falls_back_to_no_rules:
  assumes "lint (projectConfig (settings env)) = Some opts"
    and "rules opts = Some names"
    and "registry_getRules env names = Inl e"
  shows "updateLinter env s = (Inr (), snd (reportWarnings env (s\<lparr>linter := []\<rparr>))) \<and>
    linter (snd (updateLinter env s)) = [] \<and>
    calls (snd (updateLinter env s)) =
      calls s @ [if analyzeWholePackage (settings env) then LintPackage []
                 else Lint [] (map (getWorkspacePathToFile (converter env))
                                 (documents_keys env))]"
proof -
  have eq: "updateLinter env s = (Inr (), snd (reportWarnings env (s\<lparr>linter := []\<rparr>)))"
    using assms by (simp add: updateLinter_def Let_def)
  then show ?thesis
    by (simp add: reportWarnings_linter reportWarnings_calls openPaths_def)
qed

theorem rule_lookup_failure_falls_back_to_no_rules_witness:
  "lint (projectConfig (settings
      ((example_env False [''file://a.js''] (Inr []))
         \<lparr>settings := \<lparr>analyzeWholePackage = False,
                        projectConfig = \<lparr>lint = Some \<lparr>rules = Some [''no-such-rule'']\<rparr>\<rparr>\<rparr>,
          registry_getRules := (\<lambda>names. Inl (Exception ''unknown rule''))\<rparr>))) =
     Some \<lparr>rules = Some [''no-such-rule'']\<rparr> \<and>
   rules \<lparr>rules = Some [''no-such-rule'']\<rparr> = Some [''no-such-rule''] \<and>
   registry_getRules
      ((example_env False [''file://a.js''] (Inr []))
         \<lparr>settings := \<lparr>analyzeWholePackage = False,
                        projectConfig = \<lparr>lint = Some \<lparr>rules = Some [''no-such-rule'']\<rparr>\<rparr>\<rparr>,
          registry_getRules := (\<lambda>names. Inl (Exception ''unknown rule''))\<rparr>)
      [''no-such-rule''] = Inl (Exception ''unknown rule'') \<and>
   updateLinter
      ((example_env False [''file://a.js''] (Inr []))
         \<lparr>settings := \<lparr>analyzeWholePackage = False,
                        projectConfig = \<lparr>lint = Some \<lparr>rules = Some [''no-such-rule'']\<rparr>\<rparr>\<rparr>,
          registry_getRules := (\<lambda>names. Inl (Exception ''unknown rule''))\<rparr>)
      ((example_state [])\<lparr>linter := [''old-rule'']\<rparr>) =
     (Inr (),
      \<lparr>linter = [], urisReportedWarningsFor = [], sent = [],
       calls = [Lint [] [''a.js'']]\<rparr>)"
proof -
  let ?E = "(example_env False [''file://a.js''] (Inr []))
         \<lparr>settings := \<lparr>analyzeWholePackage = False,
                        projectConfig = \<lparr>lint = Some \<lparr>rules = Some [''no-such-rule'']\<rparr>\<rparr>\<rparr>,
          registry_getRules := (\<lambda>names. Inl (Exception ''unknown rule''))\<rparr>"
  have h1: "lint (projectConfig (settings ?E)) = Some \<lparr>rules = Some [''no-such-rule'']\<rparr>"
    by (simp add: example_defs)
  have h2: "rules \<lparr>rules = Some [''no-such-rule'']\<rparr> = Some [''no-such-rule'']"
    by simp
  have h3: "registry_getRules ?E [''no-such-rule''] = Inl (Exception ''unknown rule'')"
    by (simp add: example_defs)
  have "updateLinter ?E ((example_state [])\<lparr>linter := [''old-rule'']\<rparr>) =
     (Inr (),
      \<lparr>linter = [], urisReportedWarningsFor = [], sent = [],
       calls = [Lint [] [''a.js'']]\<rparr>)"
    using rule_lookup_failure_falls_back_to_no_rules
      [OF h1 h2 h3, of "(example_state [])\<lparr>linter := [''old-rule'']\<rparr>"]
    by (simp add: example_defs reportWarnings_def reportOpenWarnings_eq Let_def)
  with h1 h2 h3 show ?thesis by blast
qed

subsection \<open>Failures of the lint engine\<close>

lemma getCodeActions_failure:
  assumes "context_diagnostics req \<noteq> []"
    and "linter_lint env (linter s)
           [getWorkspacePathToFile (converter env) (textDocument req)] = Inl e"
  shows "getCodeActions env req s =
     (Inl e, s\<lparr>calls := calls s @
        [Lint (linter s) [getWorkspacePathToFile (converter env) (textDocument req)]]\<rparr>)"
  using assms by (simp add: getCodeActions_def Let_def)

lemma getAllFixes_failure:
  assumes "linter_lintPackage env (linter s) = Inl e"
  shows "getAllFixes env s = (Inl e, s\<lparr>calls := calls s @ [LintPackage (linter s)]\<rparr>)"
  using assms by (simp add: getAllFixes_def Let_def)

lemma getFixesForFile_failure:
  assumes "linter_lint env (linter s) [getWorkspacePathToFile (converter env) uri] = Inl e"
  shows "getFixesForFile env uri s =
     (Inl e, s\<lparr>calls := calls s @
        [Lint (linter s) [getWorkspacePathToFile (converter env) uri]]\<rparr>)"
  using assms by (simp add: getFixesForFile_def Let_def)

text \<open>
  Claim C4, as amended. A failure of the lint engine comes back from \<open>reportWarnings\<close>,
  \<open>getAllFixes\<close>, \<open>getFixesForFile\<close> and \<open>getCodeActions\<close> as that failure, with
  nothing published; a failed whole-package cycle leaves the Reported-State Set as it
  was. The code-action handler hands the failure to \<open>handleErrors\<close> with the
  fallback \<open>[]\<close>, and answers what \<open>handleErrors\<close> returns. \<open>updateLinter\<close>, which
  starts a cycle without waiting for it, returns normally whatever the engine does.
\<close>

theorem lint_failure_reaches_the_caller:
  "(analyzeWholePackage (settings env) \<and> linter_lintPackage env (linter s) = Inl e \<longrightarrow>
      fst (reportWarnings env s) = Inl e \<and>
      urisReportedWarningsFor (snd (reportWarnings env s)) = urisReportedWarningsFor s \<and>
      sent (snd (reportWarnings env s)) = sent s) \<and>
   (\<not> analyzeWholePackage (settings env) \<and>
    linter_lint env (linter s)
      (map (getWorkspacePathToFile (converter env)) (documents_keys env)) = Inl e \<longrightarrow>
      fst (reportWarnings env s) = Inl e \<and>
      urisReportedWarningsFor (snd (reportWarnings env s)) = urisReportedWarningsFor s \<and>
      sent (snd (reportWarnings env s)) = sent s) \<and>
   (linter_lintPackage env (linter s) = Inl e \<longrightarrow>
      fst (getAllFixes env s) = Inl e \<and> sent (snd (getAllFixes env s)) = sent s) \<and>
   (linter_lint env (linter s) [getWorkspacePathToFile (converter env) uri] = Inl e \<longrightarrow>
      fst (getFixesForFile env uri s) = Inl e \<and>
      sent (snd (getFixesForFile env uri s)) = sent s) \<and>
   (context_diagnostics req \<noteq> [] \<and>
    linter_lint env (linter s)
      [getWorkspacePathToFile (converter env) (textDocument req)] = Inl e \<longrightarrow>
      fst (getCodeActions env req s) = Inl e \<and>
      fst (onCodeAction env req s) = handleErrors env (Inl e) [] \<and>
      sent (snd (onCodeAction env req s)) = sent s) \<and>
   fst (updateLinter env s) = Inr ()"
proof (intro conjI impI)
  assume "analyzeWholePackage (settings env) \<and> linter_lintPackage env (linter s) = Inl e"
  then have "reportWarnings env s = (Inl e, s\<lparr>calls := calls s @ [LintPackage (linter s)]\<rparr>)"
    by (simp add: failed_cycle)
  then show "fst (reportWarnings env s) = Inl e"
    and "urisReportedWarningsFor (snd (reportWarnings env s)) = urisReportedWarningsFor s"
    and "sent (snd (reportWarnings env s)) = sent s"
    by simp_all
next
  assume "\<not> analyzeWholePackage (settings env) \<and>
    linter_lint env (linter s)
      (map (getWorkspacePathToFile (converter env)) (documents_keys env)) = Inl e"
  then have "reportWarnings env s =
      (Inl e, s\<lparr>calls := calls s @ [Lint (linter s) (openPaths env)]\<rparr>)"
    by (simp add: failed_cycle openPaths_def)
  then show "fst (reportWarnings env s) = Inl e"
    and "urisReportedWarningsFor (snd (reportWarnings env s)) = urisReportedWarningsFor s"
    and "sent (snd (reportWarnings env s)) = sent s"
    by simp_all
next
  assume "linter_lintPackage env (linter s) = Inl e"
  then show "fst (getAllFixes env s) = Inl e" and "sent (snd (getAllFixes env s)) = sent s"
    by (simp_all add: getAllFixes_failure)
next
  assume "linter_lint env (linter s) [getWorkspacePathToFile (converter env) uri] = Inl e"
  then show "fst (getFixesForFile env uri s) = Inl e"
    and "sent (snd (getFixesForFile env uri s)) = sent s"
    by (simp_all add: getFixesForFile_failure)
next
  assume "context_diagnostics req \<noteq> [] \<and>
    linter_lint env (linter s)
      [getWorkspacePathToFile (converter env) (textDocument req)] = Inl e"
  then have eq: "getCodeActions env req s =
     (Inl e, s\<lparr>calls := calls s @
        [Lint (linter s) [getWorkspacePathToFile (converter env) (textDocument req)]]\<rparr>)"
    by (simp add: getCodeActions_failure)
  then show "fst (getCodeActions env req s) = Inl e"
    and "fst (onCodeAction env req s) = handleErrors env (Inl e) []"
    and "sent (snd (onCodeAction env req s)) = sent s"
    by (simp_all add: onCodeAction_parts)
next
  show "fst (updateLinter env s) = Inr ()"
    by (simp add: updateLinter_def Let_def)
qed

theorem lint_failure_reaches_the_caller_witness:
  "analyzeWholePackage (settings (example_env True [] (Inl (Exception ''parse error'')))) \<and>
   linter_lintPackage (example_env True [] (Inl (Exception ''parse error'')))
     (linter (example_state [''file://a.js''])) = Inl (Exception ''parse error'') \<and>
   reportWarnings (example_env True [] (Inl (Exception ''parse error'')))
     (example_state [''file://a.js'']) =
     (Inl (Exception ''parse error''),
      \<lparr>linter = [], urisReportedWarningsFor = [''file://a.js''], sent = [],
       calls = [LintPackage []]\<rparr>) \<and>
   context_diagnostics (example_request ''file://a.js'' (example_range ''a.js'' 0 0 0 5)) \<noteq> [] \<and>
   fst (getCodeActions (example_env True [] (Inl (Exception ''parse error'')))
     (example_request ''file://a.js'' (example_range ''a.js'' 0 0 0 5))
     (example_state [''file://a.js''])) = Inl (Exception ''parse error'') \<and>
   fst (getAllFixes (example_env True [] (Inl (Exception ''parse error'')))
     (example_state [''file://a.js''])) = Inl (Exception ''parse error'') \<and>
   fst (getFixesForFile (example_env True [] (Inl (Exception ''parse error''))) ''file://a.js''
     (example_state [''file://a.js''])) = Inl (Exception ''parse error'')"
proof -
  let ?E = "example_env True [] (Inl (Exception ''parse error''))"
  let ?S = "example_state [''file://a.js'']"
  let ?req = "example_request ''file://a.js'' (example_range ''a.js'' 0 0 0 5)"
  have h1: "analyzeWholePackage (settings ?E)"
    and h2: "linter_lintPackage ?E (linter ?S) = Inl (Exception ''parse error'')"
    and h3: "context_diagnostics ?req \<noteq> []"
    and h4: "linter_lint ?E (linter ?S)
       [getWorkspacePathToFile (converter ?E) (textDocument ?req)] = Inl (Exception ''parse error'')"
    and h5: "linter_lint ?E (linter ?S)
       [getWorkspacePathToFile (converter ?E) ''file://a.js''] = Inl (Exception ''parse error'')"
    by (simp_all add: example_defs example_request_def)
  note t = lint_failure_reaches_the_caller
    [of ?E ?S "Exception ''parse error''" "''file://a.js''" ?req]
  from t h1 h2 have "fst (reportWarnings ?E ?S) = Inl (Exception ''parse error'')" by blast
  moreover have "snd (reportWarnings ?E ?S) =
      \<lparr>linter = [], urisReportedWarningsFor = [''file://a.js''], sent = [],
       calls = [LintPackage []]\<rparr>"
    by (simp add: failed_cycle(1) [OF h1 h2]) (simp add: example_defs example_request_def)
  ultimately have r: "reportWarnings ?E ?S =
     (Inl (Exception ''parse error''),
      \<lparr>linter = [], urisReportedWarningsFor = [''file://a.js''], sent = [],
       calls = [LintPackage []]\<rparr>)"
    by (simp add: prod_eq_iff)
  from t h3 h4 have c: "fst (getCodeActions ?E ?req ?S) = Inl (Exception ''parse error'')"
    by blast
  from t h2 have a: "fst (getAllFixes ?E ?S) = Inl (Exception ''parse error'')" by blast
  from t h5 have f: "fst (getFixesForFile ?E ''file://a.js'' ?S) = Inl (Exception ''parse error'')"
    by blast
  from h1 h2 r h3 c a f show ?thesis by blast
qed

text \<open>
  Claim C4 as stated fails for the code-action request: with a \<open>handleErrors\<close> that
  answers its fallback, a failing lint engine gives the request the empty command list
  and no error.
\<close>

theorem code_action_failure_answers_fallback:
  "context_diagnostics (example_request ''file://a.js'' (example_range ''a.js'' 0 0 0 5)) \<noteq> [] \<and>
   linter_lint
     ((example_env True [] (Inl (Exception ''parse error'')))
        \<lparr>handleErrors := handleErrors_fallback\<rparr>)
     (linter (example_state [])) [''a.js''] = Inl (Exception ''parse error'') \<and>
   fst (onCodeAction
     ((example_env True [] (Inl (Exception ''parse error'')))
        \<lparr>handleErrors := handleErrors_fallback\<rparr>)
     (example_request ''file://a.js'' (example_range ''a.js'' 0 0 0 5))
     (example_state [])) = Inr []"
  by (simp add: example_defs example_request_def onCodeAction_def getCodeActions_def handleErrors_fallback_def Let_def)

subsection \<open>Fixes for one file\<close>

lemma getFixesForFile_loop_eq:
  "getFixesForFile_loop path ws edits =
     edits @ filter (\<lambda>f. \<forall>r \<in> set f. range_file (repl_range r) = path)
               (List.map_filter w_fix ws)"
  by (induction ws arbitrary: edits)
     (auto simp: List.map_filter_simps list_ex_iff split: option.splits)

lemma getFixesForFile_calls:
  assumes "linter_lint env (linter s) [getWorkspacePathToFile (converter env) uri] = Inr ws"
  shows "calls (snd (getFixesForFile env uri s)) =
     calls s @ [Lint (linter s) [getWorkspacePathToFile (converter env) uri],
                ApplyEdits (getFixesForFile_loop (getWorkspacePathToFile (converter env) uri) ws [])]"
  using assms by (simp add: getFixesForFile_def Let_def split: sum.splits)

lemma getFixesForFile_result:
  assumes "linter_lint env (linter s) [getWorkspacePathToFile (converter env) uri] = Inr ws"
    and "applyEdits env (getFixesForFile_loop (getWorkspacePathToFile (converter env) uri) ws [])
           = Inr applied"
  shows "fst (getFixesForFile env uri s) =
     Inr (concat (map (map (toTextEdit (converter env))) applied))"
  using assms by (simp add: getFixesForFile_def Let_def)

text \<open>
  Claim C5. In \<open>getFixesForFile\<close>, after a successful lint of the requested file, the
  edits submitted to \<open>applyEdits\<close> are exactly the fixes all of whose replacements are
  in the requested file, in the engine's order; a fix with a replacement in another
  file is not among them. When \<open>applyEdits\<close> answers with edits among those submitted,
  every returned text edit is a replacement, in the requested file, of a submitted fix.
\<close>

theorem single_file_fixes_exclude_cross_file_fixes:
  assumes lint: "linter_lint env (linter s) [getWorkspacePathToFile (converter env) uri] = Inr ws"
  shows
    "getFixesForFile_loop (getWorkspacePathToFile (converter env) uri) ws [] =
       filter (\<lambda>f. \<forall>r \<in> set f. range_file (repl_range r) = getWorkspacePathToFile (converter env) uri)
         (List.map_filter w_fix ws) \<and>
     calls (snd (getFixesForFile env uri s)) =
       calls s @ [Lint (linter s) [getWorkspacePathToFile (converter env) uri],
                  ApplyEdits (getFixesForFile_loop (getWorkspacePathToFile (converter env) uri) ws [])] \<and>
     (\<forall>f. (\<exists>r \<in> set f. range_file (repl_range r) \<noteq> getWorkspacePathToFile (converter env) uri) \<longrightarrow>
        f \<notin> set (getFixesForFile_loop (getWorkspacePathToFile (converter env) uri) ws [])) \<and>
     (\<forall>applied.
        applyEdits env (getFixesForFile_loop (getWorkspacePathToFile (converter env) uri) ws [])
          = Inr applied \<and>
        set applied \<subseteq> set (getFixesForFile_loop (getWorkspacePathToFile (converter env) uri) ws [])
        \<longrightarrow>
        fst (getFixesForFile env uri s) =
          Inr (concat (map (map (toTextEdit (converter env))) applied)) \<and>
        (\<forall>te \<in> set (concat (map (map (toTextEdit (converter env))) applied)).
           \<exists>f \<in> set (getFixesForFile_loop (getWorkspacePathToFile (converter env) uri) ws []).
             \<exists>r \<in> set f. te = toTextEdit (converter env) r \<and>
               range_file (repl_range r) = getWorkspacePathToFile (converter env) uri))"
proof -
  let ?path = "getWorkspacePathToFile (converter env) uri"
  let ?sub = "getFixesForFile_loop ?path ws []"
  have sub: "?sub = filter (\<lambda>f. \<forall>r \<in> set f. range_file (repl_range r) = ?path)
      (List.map_filter w_fix ws)"
    by (simp add: getFixesForFile_loop_eq)
  have c: "calls (snd (getFixesForFile env uri s)) =
      calls s @ [Lint (linter s) [?path], ApplyEdits ?sub]"
    by (rule getFixesForFile_calls [OF lint])
  have inside: "range_file (repl_range r) = ?path" if "f \<in> set ?sub" "r \<in> set f" for f r
    using that by (simp add: sub)
  then have excl: "\<forall>f. (\<exists>r \<in> set f. range_file (repl_range r) \<noteq> ?path) \<longrightarrow> f \<notin> set ?sub"
    by blast
  have res: "fst (getFixesForFile env uri s) =
          Inr (concat (map (map (toTextEdit (converter env))) applied)) \<and>
        (\<forall>te \<in> set (concat (map (map (toTextEdit (converter env))) applied)).
           \<exists>f \<in> set ?sub. \<exists>r \<in> set f. te = toTextEdit (converter env) r \<and>
               range_file (repl_range r) = ?path)"
    if ap: "applyEdits env ?sub = Inr applied \<and> set applied \<subseteq> set ?sub" for applied
  proof
    show "fst (getFixesForFile env uri s) =
          Inr (concat (map (map (toTextEdit (converter env))) applied))"
      using ap by (simp add: getFixesForFile_result [OF lint])
    show "\<forall>te \<in> set (concat (map (map (toTextEdit (converter env))) applied)).
           \<exists>f \<in> set ?sub. \<exists>r \<in> set f. te = toTextEdit (converter env) r \<and>
               range_file (repl_range r) = ?path"
    proof
      fix te
      assume "te \<in> set (concat (map (map (toTextEdit (converter env))) applied))"
      then obtain f r where "f \<in> set applied" "r \<in> set f" "te = toTextEdit (converter env) r"
        by auto
      moreover from this ap have "f \<in> set ?sub" by blast
      ultimately show "\<exists>f \<in> set ?sub. \<exists>r \<in> set f. te = toTextEdit (converter env) r \<and>
               range_file (repl_range r) = ?path"
        using inside by blast
    qed
  qed
  from sub c excl res show ?thesis by blast
qed

theorem single_file_fixes_exclude_cross_file_fixes_witness:
  "linter_lint
     (example_env False []
        (Inr [(example_warning ''a.js'' ''w1'')
                \<lparr>w_fix := Some [example_replacement ''a.js'' ''x'']\<rparr>,
              (example_warning ''a.js'' ''w2'')
                \<lparr>w_fix := Some [example_replacement ''a.js'' ''y'',
                                example_replacement ''b.js'' ''z'']\<rparr>]))
     (linter (example_state []))
     [getWorkspacePathToFile
        (converter (example_env False []
          (Inr [(example_warning ''a.js'' ''w1'')
                  \<lparr>w_fix := Some [example_replacement ''a.js'' ''x'']\<rparr>,
                (example_warning ''a.js'' ''w2'')
                  \<lparr>w_fix := Some [example_replacement ''a.js'' ''y'',
                                  example_replacement ''b.js'' ''z'']\<rparr>]))) ''file://a.js''] =
     Inr [(example_warning ''a.js'' ''w1'')
            \<lparr>w_fix := Some [example_replacement ''a.js'' ''x'']\<rparr>,
          (example_warning ''a.js'' ''w2'')
            \<lparr>w_fix := Some [example_replacement ''a.js'' ''y'',
                            example_replacement ''b.js'' ''z'']\<rparr>] \<and>
   calls (snd (getFixesForFile
     (example_env False []
        (Inr [(example_warning ''a.js'' ''w1'')
                \<lparr>w_fix := Some [example_replacement ''a.js'' ''x'']\<rparr>,
              (example_warning ''a.js'' ''w2'')
                \<lparr>w_fix := Some [example_replacement ''a.js'' ''y'',
                                example_replacement ''b.js'' ''z'']\<rparr>]))
     ''file://a.js'' (example_state []))) =
     [Lint [] [''a.js''], ApplyEdits [[example_replacement ''a.js'' ''x'']]] \<and>
   fst (getFixesForFile
     (example_env False []
        (Inr [(example_warning ''a.js'' ''w1'')
                \<lparr>w_fix := Some [example_replacement ''a.js'' ''x'']\<rparr>,
              (example_warning ''a.js'' ''w2'')
                \<lparr>w_fix := Some [example_replacement ''a.js'' ''y'',
                                example_replacement ''b.js'' ''z'']\<rparr>]))
     ''file://a.js'' (example_state [])) =
     Inr [\<lparr>te_range = example_range ''a.js'' 0 0 0 5, newText = ''x''\<rparr>]"
proof -
  let ?ws = "[(example_warning ''a.js'' ''w1'')
                \<lparr>w_fix := Some [example_replacement ''a.js'' ''x'']\<rparr>,
              (example_warning ''a.js'' ''w2'')
                \<lparr>w_fix := Some [example_replacement ''a.js'' ''y'',
                                example_replacement ''b.js'' ''z'']\<rparr>]"
  let ?E = "example_env False [] (Inr ?ws)"
  let ?S = "example_state []"
  have path: "getWorkspacePathToFile (converter ?E) ''file://a.js'' = ''a.js''"
    by (simp add: example_defs example_replacement_def)
  have h: "linter_lint ?E (linter ?S) [getWorkspacePathToFile (converter ?E) ''file://a.js''] =
      Inr ?ws"
    by (simp add: example_defs example_replacement_def)
  have sub: "getFixesForFile_loop ''a.js'' ?ws [] = [[example_replacement ''a.js'' ''x'']]"
    by (simp add: example_defs example_replacement_def)
  note t = single_file_fixes_exclude_cross_file_fixes [OF h]
  have c: "calls (snd (getFixesForFile ?E ''file://a.js'' ?S)) =
      [Lint [] [''a.js''], ApplyEdits [[example_replacement ''a.js'' ''x'']]]"
    using t [THEN conjunct2, THEN conjunct1] unfolding path sub
    by (simp add: example_state_def)
  have ap: "applyEdits ?E (getFixesForFile_loop ''a.js'' ?ws []) =
      Inr [[example_replacement ''a.js'' ''x'']]"
    unfolding sub by (simp add: example_env_def)
  have "fst (getFixesForFile ?E ''file://a.js'' ?S) =
      Inr (concat (map (map (toTextEdit (converter ?E))) [[example_replacement ''a.js'' ''x'']]))"
    using t [THEN conjunct2, THEN conjunct2, THEN conjunct2, rule_format,
        of "[[example_replacement ''a.js'' ''x'']]"] ap
    unfolding path sub by simp
  then have r: "fst (getFixesForFile ?E ''file://a.js'' ?S) =
      Inr [\<lparr>te_range = example_range ''a.js'' 0 0 0 5, newText = ''x''\<rparr>]"
    by (simp add: toTextEdit_def example_defs example_replacement_def)
  from h c r show ?thesis by blast
qed

subsection \<open>Code actions\<close>

lemma actionCommands_loop_eq:
  "actionCommands_loop env as commands =
     commands @
     map (\<lambda>a. createApplyEditCommand env (takeWhile (\<lambda>c. c \<noteq> CHR 0x0A) (description a)) (edit a))
       (filter (\<lambda>a. kind a = ''edit'') as)"
  by (induction as arbitrary: commands) auto

lemma warningCommands_append:
  "warningCommands env rr w commands = commands @ warningCommands env rr w []"
  by (simp add: warningCommands_def actionCommands_loop_eq Let_def split: option.splits)

lemma warningCommands_nonempty:
  "warningCommands env rr w [] \<noteq> [] \<longleftrightarrow>
     isRangeInside (sourceRange w) rr \<and>
     (w_fix w \<noteq> None \<or> (\<exists>as a. actions w = Some as \<and> a \<in> set as \<and> kind a = ''edit''))"
  by (auto simp: warningCommands_def actionCommands_loop_eq Let_def filter_empty_conv
      split: option.splits)

lemma foldl_warningCommands:
  "foldl (\<lambda>commands w. warningCommands env rr w commands) commands ws =
     commands @ concat (map (\<lambda>w. warningCommands env rr w []) ws)"
proof (induction ws arbitrary: commands)
  case Nil
  then show ?case by simp
next
  case (Cons w ws)
  have "foldl (\<lambda>commands w. warningCommands env rr w commands) commands (w # ws) =
      foldl (\<lambda>commands w. warningCommands env rr w commands)
        (warningCommands env rr w commands) ws"
    by simp
  also have "\<dots> = warningCommands env rr w commands @
      concat (map (\<lambda>w. warningCommands env rr w []) ws)"
    by (rule Cons.IH)
  also have "warningCommands env rr w commands = commands @ warningCommands env rr w []"
    by (rule warningCommands_append)
  finally show ?case by simp
qed

lemma getCodeActions_success:
  assumes "context_diagnostics req \<noteq> []"
    and "linter_lint env (linter s)
           [getWorkspacePathToFile (converter env) (textDocument req)] = Inr ws"
  shows "fst (getCodeActions env req s) =
     Inr (concat (map (\<lambda>w. warningCommands env
            (convertLRangeToP (converter env) (req_range req) (textDocument req)) w []) ws))"
  using assms by (simp add: getCodeActions_def foldl_warningCommands Let_def)

lemma getCodeActions_short_circuit:
  "context_diagnostics req = [] \<Longrightarrow> getCodeActions env req s = (Inr [], s)"
  by (simp add: getCodeActions_def)

lemma isRangeInside_self:
  "position_le (range_start r) (range_end r) \<Longrightarrow> isRangeInside r r"
  by (auto simp: isRangeInside_def isPositionInsideRange_def position_le_def)

lemma isRangeInside_beyond_end:
  "\<not> isRangeInside (r\<lparr>range_end := (range_end r)\<lparr>column := Suc (column (range_end r))\<rparr>\<rparr>) r"
  by (simp add: isRangeInside_def isPositionInsideRange_def position_le_def)

lemma isRangeInside_before_start:
  "0 < column (range_start r) \<Longrightarrow>
     \<not> isRangeInside (r\<lparr>range_start := (range_start r)\<lparr>column := column (range_start r) - 1\<rparr>\<rparr>) r"
  by (auto simp: isRangeInside_def isPositionInsideRange_def position_le_def)

text \<open>
  Claim C6, as amended. A request without diagnostics in its context is answered with
  no commands and without a lint pass. For any other request, the commands are those
  its warnings add in turn, and a warning adds at least one command exactly when its
  source range is inside the requested range, edges included, and it has a fix or an
  action of kind \<open>edit\<close>. A range whose start is not after its end is inside itself;
  a range that ends one column after the requested range's end, or starts one column
  before its start, is not inside it.
\<close>

theorem warning_yields_command_iff_inside_and_fixable:
  "(warningCommands env rr w [] \<noteq> [] \<longleftrightarrow>
      isRangeInside (sourceRange w) rr \<and>
      (w_fix w \<noteq> None \<or> (\<exists>as a. actions w = Some as \<and> a \<in> set as \<and> kind a = ''edit''))) \<and>
   (context_diagnostics req = [] \<longrightarrow> getCodeActions env req s = (Inr [], s)) \<and>
   (context_diagnostics req \<noteq> [] \<and>
    linter_lint env (linter s)
      [getWorkspacePathToFile (converter env) (textDocument req)] = Inr ws \<longrightarrow>
      fst (getCodeActions env req s) =
        Inr (concat (map (\<lambda>w. warningCommands env
               (convertLRangeToP (converter env) (req_range req) (textDocument req)) w []) ws))) \<and>
   (position_le (range_start r) (range_end r) \<longrightarrow> isRangeInside r r) \<and>
   \<not> isRangeInside (r\<lparr>range_end := (range_end r)\<lparr>column := Suc (column (range_end r))\<rparr>\<rparr>) r \<and>
   (0 < column (range_start r) \<longrightarrow>
      \<not> isRangeInside
          (r\<lparr>range_start := (range_start r)\<lparr>column := column (range_start r) - 1\<rparr>\<rparr>) r)"
  using warningCommands_nonempty [of env rr w] getCodeActions_success [of req env s ws]
    getCodeActions_short_circuit [of req env s]
    isRangeInside_self [of r] isRangeInside_beyond_end [of r] isRangeInside_before_start [of r]
  by blast

theorem warning_yields_command_iff_inside_and_fixable_witness:
  "context_diagnostics (example_request ''file://a.js'' (example_range ''a.js'' 0 0 0 5)) \<noteq> [] \<and>
   linter_lint (example_env False [] (Inr example_fixable)) (linter (example_state []))
     [getWorkspacePathToFile (converter (example_env False [] (Inr example_fixable)))
        (textDocument (example_request ''file://a.js'' (example_range ''a.js'' 0 0 0 5)))] =
     Inr example_fixable \<and>
   fst (getCodeActions (example_env False [] (Inr example_fixable))
     (example_request ''file://a.js'' (example_range ''a.js'' 0 0 0 5)) (example_state [])) =
     Inr [\<lparr>title = ''Quick fix the '' @ [CHR 0x27] @ ''w1'' @ [CHR 0x27] @ '' warning'',
           command = ''polymer-ide/applyEdit'',
           arguments = [[example_replacement ''a.js'' ''x'']]\<rparr>,
          \<lparr>title = ''Do it'', command = ''polymer-ide/applyEdit'',
           arguments = [[example_replacement ''a.js'' ''z'']]\<rparr>] \<and>
   position_le (range_start (example_range ''a.js'' 0 1 0 5))
     (range_end (example_range ''a.js'' 0 1 0 5)) \<and>
   isRangeInside (example_range ''a.js'' 0 1 0 5) (example_range ''a.js'' 0 1 0 5) \<and>
   \<not> isRangeInside (example_range ''a.js'' 0 1 0 6) (example_range ''a.js'' 0 1 0 5) \<and>
   0 < column (range_start (example_range ''a.js'' 0 1 0 5)) \<and>
   \<not> isRangeInside (example_range ''a.js'' 0 0 0 5) (example_range ''a.js'' 0 1 0 5)"
proof -
  let ?E = "example_env False [] (Inr example_fixable)"
  let ?rr = "example_range ''a.js'' 0 0 0 5"
  let ?req = "example_request ''file://a.js'' ?rr"
  let ?r = "example_range ''a.js'' 0 1 0 5"
  have h1: "context_diagnostics ?req \<noteq> []"
    and h2: "linter_lint ?E (linter (example_state []))
        [getWorkspacePathToFile (converter ?E) (textDocument ?req)] = Inr example_fixable"
    and h3: "position_le (range_start ?r) (range_end ?r)"
    and h4: "0 < column (range_start ?r)"
    by (simp_all add: example_defs example_request_def example_replacement_def position_le_def)
  note t = warning_yields_command_iff_inside_and_fixable
    [of ?E ?rr "example_w1" ?req "example_state []" example_fixable ?r]
  from t h1 h2 have "fst (getCodeActions ?E ?req (example_state [])) =
      Inr (concat (map (\<lambda>w. warningCommands ?E
             (convertLRangeToP (converter ?E) (req_range ?req) (textDocument ?req)) w [])
           example_fixable))"
    by blast
  then have c: "fst (getCodeActions ?E ?req (example_state [])) =
     Inr [\<lparr>title = ''Quick fix the '' @ [CHR 0x27] @ ''w1'' @ [CHR 0x27] @ '' warning'',
           command = ''polymer-ide/applyEdit'',
           arguments = [[example_replacement ''a.js'' ''x'']]\<rparr>,
          \<lparr>title = ''Do it'', command = ''polymer-ide/applyEdit'',
           arguments = [[example_replacement ''a.js'' ''z'']]\<rparr>]"
    by (simp add: example_defs example_request_def example_replacement_def example_fixable_def example_w1_def example_w2_def example_w3_def warningCommands_def isRangeInside_def
        isPositionInsideRange_def position_le_def createApplyEditCommand_def Let_def)
  from t h3 have i1: "isRangeInside ?r ?r" by blast
  from t have "\<not> isRangeInside
      (?r\<lparr>range_end := (range_end ?r)\<lparr>column := Suc (column (range_end ?r))\<rparr>\<rparr>) ?r"
    by blast
  then have i2: "\<not> isRangeInside (example_range ''a.js'' 0 1 0 6) ?r"
    by (simp add: example_range_def)
  from t h4 have "\<not> isRangeInside
      (?r\<lparr>range_start := (range_start ?r)\<lparr>column := column (range_start ?r) - 1\<rparr>\<rparr>) ?r"
    by blast
  then have i3: "\<not> isRangeInside (example_range ''a.js'' 0 0 0 5) ?r"
    by (simp add: example_range_def)
  from h1 h2 c h3 i1 i2 h4 i3 show ?thesis by blast
qed

text \<open>
  Claim C6 as stated fails for a request whose context has no diagnostics: the engine
  would report a warning with a fix on exactly the requested range, and the request is
  answered with no command for it.
\<close>

theorem code_action_without_context_diagnostics_yields_nothing:
  "context_diagnostics
     ((example_request ''file://a.js'' (example_range ''a.js'' 0 0 0 5))
        \<lparr>context_diagnostics := []\<rparr>) = [] \<and>
   linter_lint (example_env False [] (Inr [example_w1])) (linter (example_state []))
     [''a.js''] = Inr [example_w1] \<and>
   isRangeInside (sourceRange (example_w1)) (example_range ''a.js'' 0 0 0 5) \<and>
   w_fix (example_w1) = Some [example_replacement ''a.js'' ''x''] \<and>
   getCodeActions (example_env False [] (Inr [example_w1]))
     ((example_request ''file://a.js'' (example_range ''a.js'' 0 0 0 5))
        \<lparr>context_diagnostics := []\<rparr>)
     (example_state []) = (Inr [], example_state [])"
  by (simp add: getCodeActions_def example_defs example_request_def example_replacement_def example_fixable_def example_w1_def example_w2_def example_w3_def isRangeInside_def
      isPositionInsideRange_def position_le_def)

subsection \<open>Interleaved cycles\<close>

lemma foldl_set_add_fresh:
  "distinct (acc @ xs) \<Longrightarrow> foldl (\<lambda>s x. set_add x s) acc xs = acc @ xs"
proof (induction xs arbitrary: acc)
  case Nil
  then show ?case by simp
next
  case (Cons x xs)
  from Cons.prems have "set_add x acc = acc @ [x]" by (simp add: set_add_def)
  moreover from Cons.prems have "distinct ((acc @ [x]) @ xs)" by simp
  ultimately show ?case using Cons.IH [of "acc @ [x]"] by simp
qed

lemma new_Set_distinct_id: "distinct xs \<Longrightarrow> new_Set xs = xs"
  using foldl_set_add_fresh [of "[]" xs] by (simp add: new_Set_def)

lemma package_keys: "map_keys (reportWarnings_loop conv ws []) = packageUris conv ws"
  by (simp add: map_keys_def loop_keys packageUris_def new_Set_def)

lemma reportPackageWarnings_reported:
  "urisReportedWarningsFor (reportPackageWarnings env ws s) = packageUris (converter env) ws"
  by (simp add: reportPackageWarnings_eq package_keys packageUris_def new_Set_distinct_id)

lemma reportWarnings_phases:
  "reportWarnings env s =
     (let (p, s1) = reportWarnings_begin env s
      in reportWarnings_resume env p (engine_answer env p) s1)"
  by (simp add: reportWarnings_def reportWarnings_begin_def reportWarnings_resume_def
      engine_answer_def Let_def split: sum.splits)

lemma reportWarnings_begin_frame:
  "urisReportedWarningsFor (snd (reportWarnings_begin env s)) = urisReportedWarningsFor s"
  "sent (snd (reportWarnings_begin env s)) = sent s"
  by (simp_all add: reportWarnings_begin_def Let_def)

lemma resume_package:
  "reportWarnings_resume env (PendingPackage rs) (Inr ws) t =
     (Inr (),
      t\<lparr>urisReportedWarningsFor := packageUris (converter env) ws,
        sent := sent t @ reportWarnings_loop (converter env) ws [] @
                map (\<lambda>u. (u, []))
                  (clearedUris (converter env) ws (urisReportedWarningsFor t))\<rparr>)"
  by (simp add: reportWarnings_resume_def reportPackageWarnings_eq package_keys clearedUris_def
      packageUris_def new_Set_distinct_id)

lemma resume_reported:
  "urisReportedWarningsFor (snd (reportWarnings_resume env p answer t)) =
     (case (p, answer) of
        (PendingPackage rs, Inr ws) \<Rightarrow> packageUris (converter env) ws
      | _ \<Rightarrow> urisReportedWarningsFor t)"
  by (simp add: reportWarnings_resume_def reportPackageWarnings_reported reportOpenWarnings_eq
      split: sum.splits pending.splits)

lemma run_schedule_snoc:
  "run_schedule env (evs @ [ev]) sys = system_step env (run_schedule env evs sys) ev"
  by (simp add: run_schedule_def)

lemma schedule_reported:
  "urisReportedWarningsFor (generator (run_schedule env evs sys)) =
     urisReportedWarningsFor (generator sys) \<or>
   (\<exists>i ws. Settle i (Inr ws) \<in> set evs \<and>
      urisReportedWarningsFor (generator (run_schedule env evs sys)) =
        packageUris (converter env) ws)"
proof (induction evs rule: rev_induct)
  case Nil
  then show ?case by (simp add: run_schedule_def)
next
  case (snoc ev evs)
  let ?sys = "run_schedule env evs sys"
  show ?case
  proof (cases ev)
    case Trigger
    then have "urisReportedWarningsFor (generator (run_schedule env (evs @ [ev]) sys)) =
        urisReportedWarningsFor (generator ?sys)"
      by (simp add: run_schedule_snoc split_beta reportWarnings_begin_frame)
    with snoc.IH show ?thesis by auto
  next
    case (Settle i answer)
    show ?thesis
    proof (cases "i < length (inflight ?sys)")
      case False
      with Settle have "run_schedule env (evs @ [ev]) sys = ?sys"
        by (simp add: run_schedule_snoc)
      with snoc.IH show ?thesis by auto
    next
      case True
      with Settle have after: "urisReportedWarningsFor (generator (run_schedule env (evs @ [ev]) sys)) =
          (case (inflight ?sys ! i, answer) of
             (PendingPackage rs, Inr ws) \<Rightarrow> packageUris (converter env) ws
           | _ \<Rightarrow> urisReportedWarningsFor (generator ?sys))"
        by (simp add: run_schedule_snoc resume_reported)
      show ?thesis
      proof (cases "\<exists>rs ws. inflight ?sys ! i = PendingPackage rs \<and> answer = Inr ws")
        case True
        then obtain rs ws where "inflight ?sys ! i = PendingPackage rs" "answer = Inr ws"
          by blast
        with after Settle show ?thesis by auto
      next
        case False
        with after have "urisReportedWarningsFor (generator (run_schedule env (evs @ [ev]) sys)) =
            urisReportedWarningsFor (generator ?sys)"
          by (auto split: pending.splits sum.splits)
        with snoc.IH show ?thesis by auto
      qed
    qed
  qed
qed

text \<open>
  Claim C2. A reporting cycle suspends once, on the lint engine, before it has read or
  written the Reported-State Set. The read of the old set, the clears and the write of
  the new set all belong to the continuation, which runs in one piece on the state of
  the moment it is resumed. Hence, however cycles are interleaved, the set a cycle finds
  is the initial one or the complete set of URIs committed by a whole-package cycle that
  has finished, never a partly built one.
\<close>

theorem diff_and_swap_runs_without_suspension:
  "reportWarnings env s =
     (let (p, s1) = reportWarnings_begin env s
      in reportWarnings_resume env p (engine_answer env p) s1) \<and>
   urisReportedWarningsFor (snd (reportWarnings_begin env s)) = urisReportedWarningsFor s \<and>
   sent (snd (reportWarnings_begin env s)) = sent s \<and>
   reportWarnings_resume env (PendingPackage rs) (Inr ws) t =
     (Inr (),
      t\<lparr>urisReportedWarningsFor := packageUris (converter env) ws,
        sent := sent t @ reportWarnings_loop (converter env) ws [] @
                map (\<lambda>u. (u, []))
                  (clearedUris (converter env) ws (urisReportedWarningsFor t))\<rparr>) \<and>
   (urisReportedWarningsFor (generator (run_schedule env evs sys)) =
      urisReportedWarningsFor (generator sys) \<or>
    (\<exists>i ws'. Settle i (Inr ws') \<in> set evs \<and>
       urisReportedWarningsFor (generator (run_schedule env evs sys)) =
         packageUris (converter env) ws'))"
  using reportWarnings_phases [of env s] reportWarnings_begin_frame [of env s]
    resume_package [of env rs ws t] schedule_reported [of env evs sys]
  by blast

theorem diff_and_swap_runs_without_suspension_witness:
  "run_schedule (example_env True [] (Inr []))
     [Trigger, Trigger, Settle 0 (Inr [example_warning ''a.js'' ''w1'']), Settle 0 (Inr [])]
     \<lparr>generator = example_state [''file://b.js''], inflight = []\<rparr> =
   \<lparr>generator =
      \<lparr>linter = [], urisReportedWarningsFor = [],
       sent = [(''file://a.js'', [''w1'']), (''file://b.js'', []), (''file://a.js'', [])],
       calls = [LintPackage [], LintPackage []]\<rparr>,
    inflight = []\<rparr> \<and>
   Settle 0 (Inr []) \<in>
     set [Trigger, Trigger, Settle 0 (Inr [example_warning ''a.js'' ''w1'']), Settle 0 (Inr [])] \<and>
   urisReportedWarningsFor (generator (run_schedule (example_env True [] (Inr []))
     [Trigger, Trigger, Settle 0 (Inr [example_warning ''a.js'' ''w1'']), Settle 0 (Inr [])]
     \<lparr>generator = example_state [''file://b.js''], inflight = []\<rparr>)) =
     packageUris (converter (example_env True [] (Inr []) ::
       (string, sourceRange, edit, string) env)) []"
  using diff_and_swap_runs_without_suspension
    [of "example_env True [] (Inr [])" "example_state [''file://b.js'']" "[]"
        "[example_warning ''a.js'' ''w1'']" "example_state [''file://b.js'']"
        "[Trigger, Trigger, Settle 0 (Inr [example_warning ''a.js'' ''w1'']), Settle 0 (Inr [])]"
        "\<lparr>generator = example_state [''file://b.js''], inflight = []\<rparr>"]
  by (simp add: run_schedule_def reportWarnings_begin_def reportWarnings_resume_def
      reportPackageWarnings_eq example_defs warningUri_def map_get_def map_keys_def
      packageUris_def new_Set_def set_add_def Let_def)

end
